theory Spec2Isabelle
  imports Main "HOL-Library.Multiset"
begin

section \<open>Python string and path primitives used by minsub\<close>

text \<open>
  Python \<open>str\<close> values are modelled as \<open>string\<close> (a list of characters). The
  functions of this section are the library calls the repository makes on strings
  (\<open>str.startswith\<close>, \<open>str.rstrip\<close>, \<open>in\<close>, \<open>str.replace\<close>, \<open>str.split\<close>) and
  the \<open>posixpath\<close> functions behind \<open>os.path\<close>.
\<close>

definition startswith :: "string \<Rightarrow> string \<Rightarrow> bool" where
  "startswith s p = (take (length p) s = p)"

definition endswith :: "string \<Rightarrow> string \<Rightarrow> bool" where
  "endswith s p = (length p \<le> length s \<and> drop (length s - length p) s = p)"

text \<open>\<open>s.rstrip(chars)\<close> and \<open>s.lstrip(chars)\<close>: drop every trailing (leading)
  character that occurs in \<open>chars\<close>.\<close>

definition rstrip :: "string \<Rightarrow> string \<Rightarrow> string" where
  "rstrip chars s = rev (dropWhile (\<lambda>c. c \<in> set chars) (rev s))"

definition lstrip :: "string \<Rightarrow> string \<Rightarrow> string" where
  "lstrip chars s = dropWhile (\<lambda>c. c \<in> set chars) s"

text \<open>\<open>sub in s\<close> for strings: \<open>sub\<close> occurs in \<open>s\<close> as a contiguous block.\<close>

fun contains :: "string \<Rightarrow> string \<Rightarrow> bool" where
  "contains sub [] = (sub = [])"
| "contains sub (c # cs) = (startswith (c # cs) sub \<or> contains sub cs)"

text \<open>\<open>s.replace(old, new, 1)\<close>: the leftmost occurrence of \<open>old\<close> is replaced.\<close>

fun replace_first :: "string \<Rightarrow> string \<Rightarrow> string \<Rightarrow> string" where
  "replace_first old new [] = (if old = [] then new else [])"
| "replace_first old new (c # cs) =
     (if startswith (c # cs) old then new @ drop (length old) (c # cs)
      else c # replace_first old new cs)"

text \<open>\<open>s.split(sep)\<close> for a one-character separator, and \<open>sep.join(parts)\<close>.\<close>

fun split_char :: "char \<Rightarrow> string \<Rightarrow> string list" where
  "split_char sep [] = [[]]"
| "split_char sep (c # cs) =
     (if c = sep then [] # split_char sep cs
      else (case split_char sep cs of
              [] \<Rightarrow> [[c]]
            | w # ws \<Rightarrow> (c # w) # ws))"

fun join_char :: "char \<Rightarrow> string list \<Rightarrow> string" where
  "join_char sep [] = []"
| "join_char sep [w] = w"
| "join_char sep (w # ws) = w @ sep # join_char sep ws"

text \<open>\<open>'%s' % n\<close> for a non-negative integer: its decimal digits.\<close>

fun string_of_nat :: "nat \<Rightarrow> string" where
  "string_of_nat n =
     (if n < 10 then [''0123456789'' ! n]
      else string_of_nat (n div 10) @ [''0123456789'' ! (n mod 10)])"

declare string_of_nat.simps [simp del]

text \<open>
  \<open>posixpath.split\<close>: the head is everything up to and including the last slash, the
  tail what follows it; trailing slashes are stripped from the head unless it consists
  of slashes only. \<open>dirname\<close> and \<open>basename\<close> are its two components.
\<close>

definition os_path_split :: "string \<Rightarrow> string \<times> string" where
  "os_path_split p =
     (let head = rev (dropWhile (\<lambda>c. c \<noteq> CHR ''/'') (rev p));
          tail = rev (takeWhile (\<lambda>c. c \<noteq> CHR ''/'') (rev p))
      in (if head \<noteq> [] \<and> head \<noteq> replicate (length head) CHR ''/''
          then rstrip ''/'' head else head, tail))"

definition os_path_dirname :: "string \<Rightarrow> string" where
  "os_path_dirname p = fst (os_path_split p)"

definition os_path_basename :: "string \<Rightarrow> string" where
  "os_path_basename p = snd (os_path_split p)"

text \<open>\<open>posixpath.join(a, b)\<close> on two strings.\<close>

definition os_path_join :: "string \<Rightarrow> string \<Rightarrow> string" where
  "os_path_join a b =
     (if startswith b ''/'' then b
      else if a = [] \<or> endswith a ''/'' then a @ b
      else a @ ''/'' @ b)"

text \<open>
  \<open>posixpath.normpath\<close>: empty and \<open>.\<close> components are dropped, a \<open>..\<close> component
  removes the component before it (or is kept when there is nothing to remove on a
  relative path, and dropped at the root); exactly two leading slashes are kept as two.
\<close>

fun normpath_comps :: "bool \<Rightarrow> string list \<Rightarrow> string list \<Rightarrow> string list" where
  "normpath_comps initial_slashes new_comps [] = new_comps"
| "normpath_comps initial_slashes new_comps (seg # comps) =
     (if seg = [] \<or> seg = ''.'' then normpath_comps initial_slashes new_comps comps
      else if seg \<noteq> ''..'' \<or> (\<not> initial_slashes \<and> new_comps = [])
               \<or> (new_comps \<noteq> [] \<and> last new_comps = ''..'')
      then normpath_comps initial_slashes (new_comps @ [seg]) comps
      else if new_comps \<noteq> [] then normpath_comps initial_slashes (butlast new_comps) comps
      else normpath_comps initial_slashes new_comps comps)"

definition os_path_normpath :: "string \<Rightarrow> string" where
  "os_path_normpath path =
     (if path = [] then ''.''
      else let initial_slashes =
                 (if startswith path ''/''
                  then (if startswith path ''//'' \<and> \<not> startswith path ''///''
                        then 2 else 1)
                  else (0::nat));
               comps = normpath_comps (initial_slashes \<noteq> 0) [] (split_char CHR ''/'' path);
               joined = replicate initial_slashes CHR ''/'' @ join_char CHR ''/'' comps
           in if joined = [] then ''.'' else joined)"

text \<open>\<open>posixpath.abspath\<close>, with the current working directory as a parameter.\<close>

definition os_path_abspath :: "string \<Rightarrow> string \<Rightarrow> string" where
  "os_path_abspath cwd path =
     os_path_normpath (if startswith path ''/'' then path else os_path_join cwd path)"

section \<open>Constants and errors\<close>

definition DATA_DISK_NAME :: string where "DATA_DISK_NAME = ''minsubdisk''"
definition DATA_DISK_MOUNT :: string where "DATA_DISK_MOUNT = ''/mnt/data''"
definition ONE_DAY :: string where "ONE_DAY = ''86400s''"
definition SEVEN_DAYS :: string where "SEVEN_DAYS = ''604800s''"
definition DEFAULT_DISK_SIZE :: nat where "DEFAULT_DISK_SIZE = 200"
definition DEFAULT_SCOPE :: string where
  "DEFAULT_SCOPE = ''https://www.googleapis.com/auth/cloud-platform''"
definition DEFAULT_MACHINE_TYPE :: string where "DEFAULT_MACHINE_TYPE = ''n1-standard-2''"

definition AUTO_PREFIX_INPUT :: string where "AUTO_PREFIX_INPUT = ''INPUT_''"
definition AUTO_PREFIX_OUTPUT :: string where "AUTO_PREFIX_OUTPUT = ''OUTPUT_''"
definition DEFAULT_INPUT_LOCAL_PATH :: string where "DEFAULT_INPUT_LOCAL_PATH = ''input''"
definition DEFAULT_OUTPUT_LOCAL_PATH :: string where "DEFAULT_OUTPUT_LOCAL_PATH = ''output''"

text \<open>
  Every exception the modelled code can raise. \<open>ValueError\<close> carries the message the
  source formats. \<open>DuplicateNames\<close> is the \<open>ValueError\<close> of
  \<open>JobParams._check_for_collisions\<close>, whose message is
  \<open>'Bad job config; duplicate names found: %r' % duplicates\<close>; it carries the list
  \<open>duplicates\<close> itself. \<open>TypeError\<close> is what the Python runtime raises when
  \<open>os.path.join\<close> is given \<open>None\<close>, \<open>AttributeError\<close> what it raises when
  \<open>docker_path\<close> is read from an object without that attribute; \<open>IndexError\<close> is
  raised by \<open>split_pair\<close>.
\<close>

datatype error =
    ValueError string
  | DuplicateNames "string list"
  | TypeError
  | AttributeError
  | IndexError string

section \<open>param\_util: the URI normalizer\<close>

record UriParts =
  path :: string
  basename :: string

text \<open>The string value of a \<open>UriParts\<close> object is \<open>path + basename\<close>.\<close>

definition uri_str :: "UriParts \<Rightarrow> string" where
  "uri_str u = path u @ basename u"

definition directory_fmt :: "string \<Rightarrow> string" where
  "directory_fmt directory = rstrip ''/'' directory @ ''/''"

definition validate_file_provider :: "string \<Rightarrow> error + unit" where
  "validate_file_provider uri =
     (if startswith uri ''gs://'' then Inr ()
      else Inl (ValueError (''Expected GCS location found: '' @ uri)))"

definition validate_paths_or_fail :: "string \<Rightarrow> bool \<Rightarrow> error + unit" where
  "validate_paths_or_fail uri recursive =
     (let (pth, filename) = os_path_split uri in
      if CHR ''['' \<in> set uri \<or> CHR '']'' \<in> set uri then
        Inl (ValueError (''Square bracket (character ranges) are not supported: '' @ uri))
      else if CHR ''?'' \<in> set uri then
        Inl (ValueError (''Question mark wildcards are not supported: '' @ uri))
      else if CHR ''*'' \<in> set pth then
        Inl (ValueError (''Path wildcard (*) are only supported for files: '' @ uri))
      else if contains ''**'' filename then
        Inl (ValueError (''Recursive wildcards ('' @ [CHR 0x22] @ ''**'' @ [CHR 0x22]
                         @ '') not supported: '' @ uri))
      else if filename = ''..'' \<or> filename = ''.'' then
        Inl (ValueError (''Path characters '' @ [CHR 0x22] @ ''..'' @ [CHR 0x22] @ '' and ''
                         @ [CHR 0x22] @ ''.'' @ [CHR 0x22]
                         @ '' not supported for file names: '' @ uri))
      else if \<not> recursive \<and> filename = [] then
        Inl (ValueError (''Input or output values that are not recursive must ''
                         @ ''reference a filename or wildcard: '' @ uri))
      else Inr ())"

definition gcs_uri_rewriter :: "string \<Rightarrow> string \<times> string" where
  "gcs_uri_rewriter raw_uri = (raw_uri, replace_first ''gs://'' ''gs/'' raw_uri)"

text \<open>\<open>FileParamUtil.parse_uri\<close>: returns the docker path and the \<open>UriParts\<close>.\<close>

definition parse_uri :: "string \<Rightarrow> bool \<Rightarrow> error + (string \<times> UriParts)" where
  "parse_uri raw_uri0 recursive =
     (let raw_uri = (if recursive then directory_fmt raw_uri0 else raw_uri0) in
      case validate_file_provider raw_uri of
        Inl e \<Rightarrow> Inl e
      | Inr _ \<Rightarrow>
         (case validate_paths_or_fail raw_uri recursive of
            Inl e \<Rightarrow> Inl e
          | Inr _ \<Rightarrow>
             (let (uri, docker_uri) = gcs_uri_rewriter raw_uri;
                  uri_parts = \<lparr>path = directory_fmt (os_path_dirname uri),
                               basename = os_path_basename uri\<rparr>
              in Inr (docker_uri, uri_parts))))"

text \<open>A path has a \<open>..\<close> segment when one of its slash-separated components is \<open>..\<close>.\<close>

definition has_dotdot_segment :: "string \<Rightarrow> bool" where
  "has_dotdot_segment p = (''..'' \<in> set (split_char CHR ''/'' p))"


text \<open>
  \<open>_local_uri_rewriter\<close>. The four \<open>re.sub\<close> calls of the docker rewrite are literal
  patterns: \<open>/\.\.\<close> anywhere (every non-overlapping occurrence, left to right), and
  three patterns anchored at the start of the string.
\<close>

fun re_sub_slash_dotdot :: "string \<Rightarrow> string" where
  "re_sub_slash_dotdot [] = []"
| "re_sub_slash_dotdot (c # cs) =
     (if startswith (c # cs) ''/..'' then ''/_dotdot_'' @ re_sub_slash_dotdot (drop 2 cs)
      else c # re_sub_slash_dotdot cs)"

definition re_sub_prefix :: "string \<Rightarrow> string \<Rightarrow> string \<Rightarrow> string" where
  "re_sub_prefix pat repl s = (if startswith s pat then repl @ drop (length pat) s else s)"

text \<open>
  One step of the loop over \<open>prefix_replacements\<close>. The replacement of \<open>~/\<close> is
  \<open>os.getenv('HOME')\<close>, which is \<open>None\<close> when the variable is unset; \<open>os.path.join\<close>
  then raises \<open>TypeError\<close>.
\<close>

definition prefix_replace :: "string \<times> string option \<Rightarrow> string \<Rightarrow> error + string" where
  "prefix_replace pr normed_path =
     (if startswith normed_path (fst pr) then
        (case snd pr of
           None \<Rightarrow> Inl TypeError
         | Some replacement \<Rightarrow>
             Inr (os_path_join replacement (drop (length (fst pr)) normed_path)))
      else Inr normed_path)"

fun prefix_replace_all :: "(string \<times> string option) list \<Rightarrow> string \<Rightarrow> error + string" where
  "prefix_replace_all [] normed_path = Inr normed_path"
| "prefix_replace_all (pr # prs) normed_path =
     (case prefix_replace pr normed_path of
        Inl e \<Rightarrow> Inl e
      | Inr normed_path' \<Rightarrow> prefix_replace_all prs normed_path')"

text \<open>The environment variable \<open>HOME\<close> and the working directory are parameters.\<close>

definition local_uri_rewriter ::
  "string option \<Rightarrow> string \<Rightarrow> string \<Rightarrow> error + (string \<times> string)" where
  "local_uri_rewriter home cwd raw_uri =
     (let (raw_path, filename) = os_path_split raw_uri;
          prefix_replacements =
            [(''file:///'', Some ''/''), (''~/'', home), (''./'', Some ''''),
             (''file:/'', Some ''/'')]
      in case prefix_replace_all prefix_replacements raw_path of
           Inl e \<Rightarrow> Inl e
         | Inr normed_path \<Rightarrow>
            (let normed_uri = os_path_join (directory_fmt (os_path_abspath cwd normed_path))
                                filename;
                 docker_path0 =
                   lstrip ''./''
                     (re_sub_prefix ''file:/'' ''''
                       (re_sub_prefix ''~/'' ''_home_/''
                         (re_sub_prefix ''..'' ''_dotdot_''
                           (re_sub_slash_dotdot (os_path_normpath raw_path)))));
                 docker_path = directory_fmt (''file/'' @ docker_path0) @ filename
             in Inr (normed_uri, docker_path)))"

section \<open>param\_util: parameters\<close>

text \<open>
  \<open>EnvParam\<close> and \<open>FileParam\<close> are named tuples; the job's containers mix them and the
  code tells them apart with \<open>hasattr(v, 'docker_path')\<close>. \<open>InputFileParam\<close> and
  \<open>OutputFileParam\<close> add only the name check to \<open>FileParam\<close>. The \<open>uri\<close> field holds
  the \<open>UriParts\<close>.
\<close>

datatype param =
    EnvParam (name: string) (value': "string option")
  | FileParam (name: string) (value': "string option") (docker_path: "string option")
              (uri: "UriParts option") (recursive: bool)

fun hasattr_docker_path :: "param \<Rightarrow> bool" where
  "hasattr_docker_path (EnvParam n v) = False"
| "hasattr_docker_path (FileParam n v d u r) = True"

text \<open>
  \<open>re.match(r'^[a-zA-Z_][a-zA-Z0-9_]*$', name)\<close>. In Python \<open>$\<close> also matches just
  before a newline that ends the string.
\<close>

definition name_start_char :: "char \<Rightarrow> bool" where
  "name_start_char c =
     (c \<in> set ''abcdefghijklmnopqrstuvwxyzABCDEFGHIJKLMNOPQRSTUVWXYZ_'')"

definition name_char :: "char \<Rightarrow> bool" where
  "name_char c = (name_start_char c \<or> c \<in> set ''0123456789'')"

definition name_matches :: "string \<Rightarrow> bool" where
  "name_matches nm =
     (case nm of
        [] \<Rightarrow> False
      | c # cs \<Rightarrow> name_start_char c
                  \<and> (list_all name_char cs
                      \<or> (cs \<noteq> [] \<and> last cs = CHR 0x0A \<and> list_all name_char (butlast cs))))"

definition validate_param_name :: "string \<Rightarrow> string \<Rightarrow> error + unit" where
  "validate_param_name nm param_type =
     (if \<not> name_matches nm then Inl (ValueError (''Invalid '' @ param_type @ '': '' @ nm))
      else Inr ())"

definition new_EnvParam :: "string \<Rightarrow> string option \<Rightarrow> error + param" where
  "new_EnvParam nm v =
     (case validate_param_name nm ''Environment variable'' of
        Inl e \<Rightarrow> Inl e
      | Inr _ \<Rightarrow> Inr (EnvParam nm v))"

datatype param_class = FileParam_class | InputFileParam_class | OutputFileParam_class

fun new_param ::
  "param_class \<Rightarrow> string \<Rightarrow> string option \<Rightarrow> string option \<Rightarrow> UriParts option \<Rightarrow> bool
   \<Rightarrow> error + param" where
  "new_param FileParam_class nm v d u r = Inr (FileParam nm v d u r)"
| "new_param InputFileParam_class nm v d u r =
     (case validate_param_name nm ''Input parameter'' of
        Inl e \<Rightarrow> Inl e
      | Inr _ \<Rightarrow> Inr (FileParam nm v d u r))"
| "new_param OutputFileParam_class nm v d u r =
     (case validate_param_name nm ''Output parameter'' of
        Inl e \<Rightarrow> Inl e
      | Inr _ \<Rightarrow> Inr (FileParam nm v d u r))"

text \<open>\<open>FileParamUtil\<close>: the builder object, with its auto-naming counter.\<close>

record FileParamUtil =
  param_class :: param_class
  auto_prefix :: string
  auto_index :: nat
  relative_path :: string

definition InputFileParamUtil :: "string \<Rightarrow> FileParamUtil" where
  "InputFileParamUtil dp =
     \<lparr>param_class = InputFileParam_class, auto_prefix = AUTO_PREFIX_INPUT,
      auto_index = 0, relative_path = dp\<rparr>"

definition OutputFileParamUtil :: "string \<Rightarrow> FileParamUtil" where
  "OutputFileParamUtil dp =
     \<lparr>param_class = OutputFileParam_class, auto_prefix = AUTO_PREFIX_OUTPUT,
      auto_index = 0, relative_path = dp\<rparr>"

text \<open>\<open>get_variable_name\<close> returns the name and the builder after the call. \<open>not name\<close>
  holds for \<open>None\<close> and for the empty string.\<close>

definition get_variable_name :: "FileParamUtil \<Rightarrow> string option \<Rightarrow> string \<times> FileParamUtil" where
  "get_variable_name util nm =
     (if nm = None \<or> nm = Some []
      then (auto_prefix util @ string_of_nat (auto_index util),
            util\<lparr>auto_index := auto_index util + 1\<rparr>)
      else (the nm, util))"

definition make_param :: "FileParamUtil \<Rightarrow> string \<Rightarrow> string option \<Rightarrow> bool \<Rightarrow> error + param" where
  "make_param util nm raw_uri r =
     (case raw_uri of
        None \<Rightarrow> new_param (param_class util) nm None None None r
      | Some raw \<Rightarrow>
          if raw = [] then new_param (param_class util) nm None None None r
          else (case parse_uri raw r of
                  Inl e \<Rightarrow> Inl e
                | Inr (dp, uri_parts) \<Rightarrow>
                    new_param (param_class util) nm (Some raw) (Some dp) (Some uri_parts) r))"

text \<open>\<open>split_pair\<close>: \<open>pair_string.split(separator, 1)\<close> for a one-character separator.\<close>

definition split_pair :: "string \<Rightarrow> char \<Rightarrow> nat \<Rightarrow> error + (string option \<times> string option)" where
  "split_pair pair_string separator nullable_idx =
     (if separator \<in> set pair_string
      then Inr (Some (takeWhile (\<lambda>c. c \<noteq> separator) pair_string),
                Some (tl (dropWhile (\<lambda>c. c \<noteq> separator) pair_string)))
      else if nullable_idx = 0 then Inr (None, Some pair_string)
      else if nullable_idx = 1 then Inr (Some pair_string, None)
      else Inl (IndexError ''nullable_idx should be either 0 or 1.''))"

text \<open>
  A Python \<open>set\<close> is modelled by the list of its elements. While a set is being built
  the list holds the elements in insertion order; \<open>add\<close> of an element that is already
  there changes nothing. Python fixes no iteration order for a set: it follows the
  elements' hashes, and the hash of a string is salted anew in each interpreter
  process. The functions that build the job's sets therefore take the iteration order
  as a parameter \<open>iter_order\<close>, which maps the elements in insertion order to the
  order in which every later \<open>for v in vset\<close> visits them.
\<close>

definition set_add :: "'a \<Rightarrow> 'a list \<Rightarrow> 'a list" where
  "set_add x xs = (if x \<in> set xs then xs else xs @ [x])"

fun parse_pair_args_loop :: "param list \<Rightarrow> string list \<Rightarrow> error + param list" where
  "parse_pair_args_loop label_data [] = Inr label_data"
| "parse_pair_args_loop label_data (arg # labels) =
     (case split_pair arg CHR ''='' 1 of
        Inl e \<Rightarrow> Inl e
      | Inr (nm, v) \<Rightarrow>
         (case nm of
            None \<Rightarrow> Inl TypeError
          | Some n \<Rightarrow>
             (case new_EnvParam n v of
                Inl e \<Rightarrow> Inl e
              | Inr p \<Rightarrow> parse_pair_args_loop (set_add p label_data) labels)))"

definition parse_pair_args :: "(param list \<Rightarrow> param list) \<Rightarrow> string list \<Rightarrow> error + param list" where
  "parse_pair_args iter_order labels =
     (case parse_pair_args_loop [] labels of
        Inl e \<Rightarrow> Inl e
      | Inr label_data \<Rightarrow> Inr (iter_order label_data))"

text \<open>The inner loop of \<open>args_to_job_params\<close> over one list of file flags.\<close>

fun file_args_loop ::
  "FileParamUtil \<Rightarrow> bool \<Rightarrow> param list \<Rightarrow> string list \<Rightarrow> error + (param list \<times> FileParamUtil)" where
  "file_args_loop util r sink [] = Inr (sink, util)"
| "file_args_loop util r sink (arg # args) =
     (case split_pair arg CHR ''='' 0 of
        Inl e \<Rightarrow> Inl e
      | Inr (nm0, v) \<Rightarrow>
         (let (nm, util') = get_variable_name util nm0 in
          case make_param util' nm v r of
            Inl e \<Rightarrow> Inl e
          | Inr p \<Rightarrow> file_args_loop util' r (set_add p sink) args))"

section \<open>model: job parameters and resources\<close>

record ResourcesConfig =
  project :: string
  region :: string
  machine_type :: string
  disk_size :: nat
  service_account :: "string option"
  scopes :: "string list"

record JobParams =
  envs :: "param list"
  inputs :: "param list"
  recursive_inputs :: "param list"
  outputs :: "param list"
  recursive_outputs :: "param list"

text \<open>\<open>JobParams._check_for_collisions\<close>: the state of the two nested loops is the set
  \<open>known_names\<close> and the list \<open>duplicates\<close>.\<close>

definition collision_step :: "param \<Rightarrow> string set \<times> string list \<Rightarrow> string set \<times> string list" where
  "collision_step v st =
     (if name v \<notin> fst st then (insert (name v) (fst st), snd st)
      else (fst st, snd st @ [name v]))"

definition check_for_collisions :: "param list list \<Rightarrow> error + unit" where
  "check_for_collisions allinputs =
     (let duplicates = snd (fold (\<lambda>vset st. fold collision_step vset st) allinputs ({}, []))
      in if duplicates \<noteq> [] then Inl (DuplicateNames duplicates) else Inr ())"

definition new_JobParams ::
  "param list \<Rightarrow> param list \<Rightarrow> param list \<Rightarrow> param list \<Rightarrow> param list \<Rightarrow> error + JobParams" where
  "new_JobParams es ins r_ins outs r_outs =
     (case check_for_collisions [es, ins, r_ins, outs, r_outs] of
        Inl e \<Rightarrow> Inl e
      | Inr _ \<Rightarrow>
          Inr \<lparr>envs = es, inputs = ins, recursive_inputs = r_ins,
               outputs = outs, recursive_outputs = r_outs\<rparr>)"

definition values_of :: "JobParams \<Rightarrow> param list list" where
  "values_of job =
     [envs job, inputs job, recursive_inputs job, outputs job, recursive_outputs job]"

definition args_to_job_params ::
  "(param list \<Rightarrow> param list) \<Rightarrow> string list \<Rightarrow> string list \<Rightarrow> string list \<Rightarrow> string list
   \<Rightarrow> string list \<Rightarrow> error + JobParams" where
  "args_to_job_params iter_order es ins ins_recur outs outs_recur =
     (let input_file_param_util = InputFileParamUtil DEFAULT_INPUT_LOCAL_PATH;
          output_file_param_util = OutputFileParamUtil DEFAULT_OUTPUT_LOCAL_PATH
      in case parse_pair_args iter_order es of
           Inl e \<Rightarrow> Inl e
         | Inr env_data \<Rightarrow>
       (case file_args_loop input_file_param_util False [] ins of
           Inl e \<Rightarrow> Inl e
         | Inr (input_data, iu) \<Rightarrow>
       (case file_args_loop iu True [] ins_recur of
           Inl e \<Rightarrow> Inl e
         | Inr (r_input_data, iu') \<Rightarrow>
       (case file_args_loop output_file_param_util False [] outs of
           Inl e \<Rightarrow> Inl e
         | Inr (output_data, ou) \<Rightarrow>
       (case file_args_loop ou True [] outs_recur of
           Inl e \<Rightarrow> Inl e
         | Inr (r_output_data, ou') \<Rightarrow>
             new_JobParams env_data (iter_order input_data) (iter_order r_input_data)
               (iter_order output_data) (iter_order r_output_data))))))"


section \<open>pipeline\_actions: the action builder\<close>

definition DEBIAN_IMAGE :: string where "DEBIAN_IMAGE = ''debian:stable-slim''"
definition CLOUD_SDK_IMAGE :: string where "CLOUD_SDK_IMAGE = ''google/cloud-sdk:slim''"

text \<open>The three lines that open \<open>GENERIC_BASH_SCRIPT_CMD\<close>, after \<open>textwrap.dedent\<close>.\<close>

definition BASH_PREAMBLE :: string where
  "BASH_PREAMBLE =
     ''set -o errexit'' @ [CHR 0x0A] @ ''set -o nounset'' @ [CHR 0x0A]
     @ ''set -o pipefail'' @ [CHR 0x0A]"

text \<open>\<open>GENERIC_BASH_SCRIPT_CMD % script\<close>.\<close>

definition GENERIC_BASH_SCRIPT_CMD :: "string \<Rightarrow> string" where
  "GENERIC_BASH_SCRIPT_CMD script = BASH_PREAMBLE @ [CHR 0x0A] @ script @ [CHR 0x0A]"

text \<open>\<open>'%s' % x\<close> for an optional string: \<open>None\<close> prints as \<open>None\<close>.\<close>

definition fmt_s :: "string option \<Rightarrow> string" where
  "fmt_s x = (case x of None \<Rightarrow> ''None'' | Some s \<Rightarrow> s)"

text \<open>\<open>os.path.join(self.mount_point, v.docker_path)\<close> on a member of a container.\<close>

fun join_mount :: "string \<Rightarrow> param \<Rightarrow> error + string" where
  "join_mount mount_point (EnvParam n v) = Inl AttributeError"
| "join_mount mount_point (FileParam n v None u r) = Inl TypeError"
| "join_mount mount_point (FileParam n v (Some d) u r) = Inr (os_path_join mount_point d)"

text \<open>One copy command: \<open>tool "a" "b"\<close>.\<close>

definition copy_command :: "string \<Rightarrow> string \<Rightarrow> string \<Rightarrow> string" where
  "copy_command tool a b =
     tool @ '' '' @ [CHR 0x22] @ a @ [CHR 0x22] @ '' '' @ [CHR 0x22] @ b @ [CHR 0x22]"

text \<open>The loops of \<open>LocalizeAction.make_commands\<close> (source is the value, destination
  the mount path) and of \<open>DelocalizeAction.make_commands\<close> (the other way round).\<close>

fun localize_loop :: "string \<Rightarrow> string \<Rightarrow> string list \<Rightarrow> param list \<Rightarrow> error + string list" where
  "localize_loop mount_point tool copy_commands [] = Inr copy_commands"
| "localize_loop mount_point tool copy_commands (v # vs) =
     (case join_mount mount_point v of
        Inl e \<Rightarrow> Inl e
      | Inr dst \<Rightarrow>
          localize_loop mount_point tool
            (copy_commands @ [copy_command tool (fmt_s (value' v)) dst]) vs)"

fun delocalize_loop :: "string \<Rightarrow> string \<Rightarrow> string list \<Rightarrow> param list \<Rightarrow> error + string list" where
  "delocalize_loop mount_point tool copy_commands [] = Inr copy_commands"
| "delocalize_loop mount_point tool copy_commands (v # vs) =
     (case join_mount mount_point v of
        Inl e \<Rightarrow> Inl e
      | Inr src \<Rightarrow>
          delocalize_loop mount_point tool
            (copy_commands @ [copy_command tool src (fmt_s (value' v))]) vs)"

text \<open>The three action classes; each holds the job configuration it was built with.\<close>

datatype action =
    LocalizeAction JobParams
  | DelocalizeAction JobParams
  | UserAction JobParams string string "string list"

fun action_name :: "action \<Rightarrow> string" where
  "action_name (LocalizeAction jconfig) = ''localize''"
| "action_name (DelocalizeAction jconfig) = ''delocalize''"
| "action_name (UserAction jconfig aname docker_image command) = aname"

fun action_image :: "action \<Rightarrow> string" where
  "action_image (LocalizeAction jconfig) = CLOUD_SDK_IMAGE"
| "action_image (DelocalizeAction jconfig) = CLOUD_SDK_IMAGE"
| "action_image (UserAction jconfig aname docker_image command) = docker_image"

text \<open>The list \<open>copy_commands\<close> at the end of the two loops of each
  \<open>make_commands\<close>.\<close>

definition localize_copy_commands :: "JobParams \<Rightarrow> error + string list" where
  "localize_copy_commands config =
     (case localize_loop DATA_DISK_MOUNT ''gsutil -mq cp'' [] (inputs config) of
        Inl e \<Rightarrow> Inl e
      | Inr cmds1 \<Rightarrow>
          localize_loop DATA_DISK_MOUNT ''gsutil -mq rsync -r'' cmds1
            (recursive_inputs config))"

definition delocalize_copy_commands :: "JobParams \<Rightarrow> error + string list" where
  "delocalize_copy_commands config =
     (case delocalize_loop DATA_DISK_MOUNT ''gsutil -mq cp'' [] (outputs config) of
        Inl e \<Rightarrow> Inl e
      | Inr cmds1 \<Rightarrow>
          delocalize_loop DATA_DISK_MOUNT ''gsutil -mq rsync -r'' cmds1
            (recursive_outputs config))"

fun make_commands :: "action \<Rightarrow> error + string list" where
  "make_commands (LocalizeAction config) =
     (case localize_copy_commands config of
        Inl e \<Rightarrow> Inl e
      | Inr copy_commands \<Rightarrow>
          Inr [''-c'', GENERIC_BASH_SCRIPT_CMD (join_char CHR 0x0A copy_commands)])"
| "make_commands (DelocalizeAction config) =
     (case delocalize_copy_commands config of
        Inl e \<Rightarrow> Inl e
      | Inr copy_commands \<Rightarrow>
          Inr [''-c'', GENERIC_BASH_SCRIPT_CMD (join_char CHR 0x0A copy_commands)])"
| "make_commands (UserAction config aname docker_image command) = Inr command"

record mount =
  disk :: string
  mount_path :: string
  readOnly :: bool

record action_dict =
  a_name :: string
  imageUri :: string
  commands :: "string list"
  a_environment :: "(string \<times> string) list"
  flags :: "string list"
  mounts :: "mount list"
  a_timeout :: string
  entrypoint :: "string option"

text \<open>\<open>GenericAction.to_dict\<close>; the attributes set by \<open>GenericAction.__init__\<close> and not
  overridden by a subclass (entry point, timeout, environment, flags, mount) are the
  same for every action.\<close>

definition to_dict :: "action \<Rightarrow> error + action_dict" where
  "to_dict a =
     (case make_commands a of
        Inl e \<Rightarrow> Inl e
      | Inr cmds \<Rightarrow>
          Inr \<lparr>a_name = action_name a, imageUri = action_image a, commands = cmds,
               a_environment = [], flags = [],
               mounts = [\<lparr>disk = DATA_DISK_NAME, mount_path = DATA_DISK_MOUNT,
                          readOnly = False\<rparr>],
               a_timeout = ONE_DAY, entrypoint = Some ''/bin/bash''\<rparr>)"

section \<open>pipeline\_api: the request assembler\<close>

record service_account_dict =
  sa_scopes :: "string list"
  email :: "string option"

record disk_dict =
  d_name :: string
  sizeGb :: nat

record vm_dict =
  machineType :: string
  preemptible :: bool
  disks :: "disk_dict list"
  serviceAccount :: service_account_dict

record resources_dict =
  projectId :: string
  regions :: "string list"
  virtualMachine :: vm_dict

definition create_resources :: "ResourcesConfig \<Rightarrow> resources_dict" where
  "create_resources rconfig =
     \<lparr>projectId = project rconfig, regions = [region rconfig],
      virtualMachine =
        \<lparr>machineType = machine_type rconfig, preemptible = False,
         disks = [\<lparr>d_name = DATA_DISK_NAME, sizeGb = disk_size rconfig\<rparr>],
         serviceAccount =
           \<lparr>sa_scopes = scopes rconfig,
            email = (if service_account rconfig \<noteq> None \<and> service_account rconfig \<noteq> Some []
                     then service_account rconfig else None)\<rparr>\<rparr>\<rparr>"

record pipeline_dict =
  actions :: "action_dict list"
  resources :: resources_dict
  environment :: "string \<rightharpoonup> string option"
  timeout :: string

record request =
  pipeline :: pipeline_dict
  labels :: "(string \<times> string) list"

text \<open>The environment loop of \<open>create_pipeline_request\<close>: \<open>envs[v.name] = ...\<close> for
  every member of every container, in order. The dictionary \<open>envs\<close> is a map from
  names to values (an \<open>EnvParam\<close> may have the value \<open>None\<close>).\<close>

definition env_step ::
  "param \<Rightarrow> (string \<rightharpoonup> string option) \<Rightarrow> error + (string \<rightharpoonup> string option)" where
  "env_step v es =
     (if hasattr_docker_path v then
        (case join_mount DATA_DISK_MOUNT v of
           Inl e \<Rightarrow> Inl e
         | Inr p \<Rightarrow> Inr (es(name v \<mapsto> Some p)))
      else Inr (es(name v \<mapsto> value' v)))"

fun env_loop ::
  "(string \<rightharpoonup> string option) \<Rightarrow> param list \<Rightarrow> error + (string \<rightharpoonup> string option)" where
  "env_loop es [] = Inr es"
| "env_loop es (v # vs) =
     (case env_step v es of Inl e \<Rightarrow> Inl e | Inr es' \<Rightarrow> env_loop es' vs)"

fun to_dict_all :: "action list \<Rightarrow> error + action_dict list" where
  "to_dict_all [] = Inr []"
| "to_dict_all (a # as) =
     (case to_dict a of
        Inl e \<Rightarrow> Inl e
      | Inr d \<Rightarrow> (case to_dict_all as of Inl e \<Rightarrow> Inl e | Inr ds \<Rightarrow> Inr (d # ds)))"

definition create_pipeline_request ::
  "ResourcesConfig \<Rightarrow> JobParams \<Rightarrow> action list \<Rightarrow> string \<Rightarrow> error + request" where
  "create_pipeline_request resources_config job_config acts tmo =
     (case env_loop Map.empty (concat (values_of job_config)) of
        Inl e \<Rightarrow> Inl e
      | Inr es \<Rightarrow>
         (case to_dict_all acts of
            Inl e \<Rightarrow> Inl e
          | Inr ads \<Rightarrow>
              Inr \<lparr>pipeline =
                     \<lparr>actions = ads, resources = create_resources resources_config,
                      environment = es, timeout = tmo\<rparr>,
                   labels = [(''minsub'', ''v1'')]\<rparr>))"


section \<open>Properties of the URI normalizer\<close>


lemma replace_first_gs:
  "startswith raw ''gs://'' \<Longrightarrow> replace_first ''gs://'' ''gs/'' raw = ''gs/'' @ drop 5 raw"
  by (cases raw) (simp_all add: startswith_def eval_nat_numeral)

lemma startswith_gs_decomp:
  "startswith raw ''gs://'' \<Longrightarrow> raw = ''gs://'' @ drop 5 raw"
proof -
  assume "startswith raw ''gs://''"
  then have "take 5 raw = ''gs://''" by (simp add: startswith_def eval_nat_numeral)
  then show ?thesis by (metis append_take_drop_id)
qed

lemma basename_after_slash:
  "os_path_basename (a @ CHR ''/'' # rest) = os_path_basename rest"
  by (simp add: os_path_basename_def os_path_split_def Let_def takeWhile_tail)

lemma rstrip_snoc_slash: "rstrip ''/'' (s @ ''/'') = rstrip ''/'' s"
  by (simp add: rstrip_def)

lemma rstrip_idem: "rstrip cs (rstrip cs s) = rstrip cs s"
  by (simp add: rstrip_def)

lemma directory_fmt_idem: "directory_fmt (directory_fmt x) = directory_fmt x"
  by (simp add: directory_fmt_def rstrip_snoc_slash rstrip_idem)

lemma parse_uri_success:
  assumes "parse_uri raw0 r = Inr (d, u)"
  defines "raw \<equiv> (if r then directory_fmt raw0 else raw0)"
  shows "startswith raw ''gs://''"
    and "validate_paths_or_fail raw r = Inr ()"
    and "d = ''gs/'' @ drop 5 raw"
    and "u = \<lparr>path = directory_fmt (os_path_dirname raw), basename = os_path_basename raw\<rparr>"
  using assms
  by (auto simp: parse_uri_def validate_file_provider_def gcs_uri_rewriter_def Let_def replace_first_gs
      split: if_splits sum.splits)

lemma validate_paths_basename:
  "validate_paths_or_fail raw r = Inr () \<Longrightarrow>
     os_path_basename raw \<noteq> ''..'' \<and> os_path_basename raw \<noteq> ''.''
     \<and> (\<not> r \<longrightarrow> os_path_basename raw \<noteq> [])"
  by (auto simp: validate_paths_or_fail_def os_path_basename_def Let_def split: prod.splits if_splits)

lemma split_dir_slash:
  assumes "startswith (s @ ''/'') ''gs://''"
  shows "os_path_split (s @ ''/'') = (rstrip ''/'' s, [])"
proof -
  have "s \<noteq> []" using assms by (auto simp: startswith_def)
  then have g: "hd (s @ ''/'') = CHR ''g''" using assms by (cases s) (auto simp: startswith_def)
  have "s @ ''/'' \<noteq> replicate (length (s @ ''/'')) CHR ''/''"
  proof
    assume "s @ ''/'' = replicate (length (s @ ''/'')) CHR ''/''"
    then have "hd (s @ ''/'') = hd (replicate (length (s @ ''/'')) CHR ''/'')" by simp
    then show False using g by simp
  qed
  then show ?thesis
    by (simp add: os_path_split_def Let_def rstrip_snoc_slash[simplified])
qed


lemmas parse_uri_eval =
  parse_uri_def validate_file_provider_def validate_paths_or_fail_def startswith_def
  os_path_split_def rstrip_def gcs_uri_rewriter_def directory_fmt_def os_path_dirname_def
  os_path_basename_def

text \<open>
  Claim C3, as the code has it. \<open>parse_uri\<close> calls \<open>_validate_file_provider\<close> before
  \<open>_validate_paths_or_fail\<close>: every input that does not start with \<open>gs://\<close> (after the
  directory coercion of a recursive reference) fails with the provider error, whether
  or not it contains a square bracket; the square-bracket error is the result for the
  inputs that do start with \<open>gs://\<close> and contain a bracket.
\<close>

theorem parse_uri_provider_checked_first:
  "(\<not> startswith (if r then directory_fmt raw_uri else raw_uri) ''gs://'' \<longrightarrow>
      parse_uri raw_uri r =
        Inl (ValueError (''Expected GCS location found: ''
                         @ (if r then directory_fmt raw_uri else raw_uri))))
   \<and> (startswith (if r then directory_fmt raw_uri else raw_uri) ''gs://''
        \<and> (CHR ''['' \<in> set raw_uri \<or> CHR '']'' \<in> set raw_uri) \<longrightarrow>
      parse_uri raw_uri r =
        Inl (ValueError (''Square bracket (character ranges) are not supported: ''
                         @ (if r then directory_fmt raw_uri else raw_uri))))"
proof -
  have "set (directory_fmt raw_uri) \<supseteq> set (rstrip ''/'' raw_uri)"
    by (auto simp: directory_fmt_def)
  have br: "c \<noteq> CHR ''/'' \<Longrightarrow> c \<in> set raw_uri \<Longrightarrow> c \<in> set (directory_fmt raw_uri)" for c
  proof -
    assume c: "c \<noteq> CHR ''/''" "c \<in> set raw_uri"
    have "raw_uri = rstrip ''/'' raw_uri @ rev (takeWhile (\<lambda>c. c \<in> set ''/'') (rev raw_uri))"
      unfolding rstrip_def by (metis rev_append rev_rev_ident takeWhile_dropWhile_id)
    then have "set raw_uri = set (rstrip ''/'' raw_uri) \<union> set (takeWhile (\<lambda>c. c \<in> set ''/'') (rev raw_uri))"
      by (metis set_append set_rev)
    moreover have "c \<notin> set (takeWhile (\<lambda>c. c \<in> set ''/'') (rev raw_uri))"
      using c(1) by (auto dest: set_takeWhileD)
    ultimately show ?thesis using c(2) by (auto simp: directory_fmt_def)
  qed
  show ?thesis
    using br[of "CHR ''[''"] br[of "CHR '']''"]
    by (auto simp: parse_uri_def validate_file_provider_def validate_paths_or_fail_def Let_def
        split: prod.splits)
qed

text \<open>The two cases of the order of checks at concrete inputs.\<close>

theorem parse_uri_provider_checked_first_witness:
  "parse_uri ''s3://bucket/a.txt'' False =
     Inl (ValueError ''Expected GCS location found: s3://bucket/a.txt'')
   \<and> parse_uri ''gs://bucket/a[0-9].txt'' False =
     Inl (ValueError ''Square bracket (character ranges) are not supported: gs://bucket/a[0-9].txt'')"
  using parse_uri_provider_checked_first [of False "''s3://bucket/a.txt''"]
        parse_uri_provider_checked_first [of False "''gs://bucket/a[0-9].txt''"]
  by (simp add: startswith_def)

text \<open>
  Claim C3 as stated fails: an input with an unsupported provider and a square bracket
  is rejected with the provider error, not with the wildcard-class error.
\<close>

theorem parse_uri_bracket_unsupported_provider_counterexample:
  "\<not> startswith ''s3://bucket/a[0-9].txt'' ''gs://''
   \<and> CHR ''['' \<in> set ''s3://bucket/a[0-9].txt''
   \<and> parse_uri ''s3://bucket/a[0-9].txt'' False =
       Inl (ValueError ''Expected GCS location found: s3://bucket/a[0-9].txt'')
   \<and> parse_uri ''s3://bucket/a[0-9].txt'' False \<noteq>
       Inl (ValueError ''Square bracket (character ranges) are not supported: s3://bucket/a[0-9].txt'')"
  by (simp add: parse_uri_eval)

text \<open>
  Claim C1, as the code has it. For every raw URI and recursive flag that \<open>parse_uri\<close>
  accepts, the docker path begins with \<open>gs/\<close> (so it does not begin with a slash), its
  last path segment is neither \<open>..\<close> nor \<open>.\<close>, and joining the mount root with it
  appends it to the mount root after one slash. Nothing is said about \<open>..\<close> in the
  directory segments: the code does not reject them.
\<close>

theorem parse_uri_docker_path_shape:
  assumes "parse_uri raw_uri r = Inr (d, u)"
  shows "startswith d ''gs/'' \<and> \<not> startswith d ''/''
         \<and> os_path_basename d \<noteq> ''..'' \<and> os_path_basename d \<noteq> ''.''
         \<and> os_path_join DATA_DISK_MOUNT d = DATA_DISK_MOUNT @ ''/'' @ d"
proof -
  define raw where "raw = (if r then directory_fmt raw_uri else raw_uri)"
  have gs: "startswith raw ''gs://''" and ok: "validate_paths_or_fail raw r = Inr ()"
    and d: "d = ''gs/'' @ drop 5 raw"
    using parse_uri_success[OF assms] by (simp_all add: raw_def)
  have raw: "raw = ''gs://'' @ drop 5 raw" using gs by (rule startswith_gs_decomp)
  have "os_path_basename raw = os_path_basename (drop 5 raw)"
    using basename_after_slash[of "''gs:/''" "drop 5 raw"] raw by simp
  moreover have "os_path_basename d = os_path_basename (drop 5 raw)"
    using basename_after_slash[of "''gs''" "drop 5 raw"] d by simp
  ultimately have "os_path_basename d = os_path_basename raw" by simp
  then show ?thesis
    using validate_paths_basename[OF ok] d
    by (simp add: startswith_def os_path_join_def DATA_DISK_MOUNT_def endswith_def)
qed

text \<open>The shape of the docker path at an accepted file URI.\<close>

theorem parse_uri_docker_path_shape_witness:
  "parse_uri ''gs://bucket/folder/file.txt'' False =
     Inr (''gs/bucket/folder/file.txt'', \<lparr>path = ''gs://bucket/folder/'', basename = ''file.txt''\<rparr>)
   \<and> startswith ''gs/bucket/folder/file.txt'' ''gs/''
   \<and> os_path_basename ''gs/bucket/folder/file.txt'' \<noteq> ''..''
   \<and> os_path_join DATA_DISK_MOUNT ''gs/bucket/folder/file.txt'' = ''/mnt/data/gs/bucket/folder/file.txt''"
proof -
  have h: "parse_uri ''gs://bucket/folder/file.txt'' False =
     Inr (''gs/bucket/folder/file.txt'', \<lparr>path = ''gs://bucket/folder/'', basename = ''file.txt''\<rparr>)"
    by (simp add: parse_uri_eval)
  show ?thesis using h parse_uri_docker_path_shape [OF h] by (simp add: DATA_DISK_MOUNT_def)
qed

text \<open>
  Claim C1 as stated fails: a \<open>gs://\<close> URI with \<open>..\<close> directory segments is accepted,
  its docker path keeps the \<open>..\<close> segments, and the joined path resolves outside the
  mount root \<open>/mnt/data\<close>.
\<close>

theorem parse_uri_dotdot_counterexample:
  "parse_uri ''gs://bucket/../../../etc/passwd'' False =
     Inr (''gs/bucket/../../../etc/passwd'',
          \<lparr>path = ''gs://bucket/../../../etc/'', basename = ''passwd''\<rparr>)
   \<and> has_dotdot_segment ''gs/bucket/../../../etc/passwd''
   \<and> os_path_normpath (os_path_join DATA_DISK_MOUNT ''gs/bucket/../../../etc/passwd'')
       = ''/mnt/etc/passwd''"
  by (simp add: parse_uri_eval has_dotdot_segment_def os_path_normpath_def os_path_join_def
      DATA_DISK_MOUNT_def endswith_def)

text \<open>
  Claim C7, as the code has it. When \<open>parse_uri\<close> accepts a raw URI with
  \<open>recursive = True\<close>, the external URI it returns is the directory form of the input
  (its trailing slashes replaced by exactly one); normalizing that external URI again
  returns the same docker path and the same external URI; and when the input ends with
  exactly one slash (it is its own directory form) the external URI is the input
  string itself.
\<close>

theorem parse_uri_directory_idempotent:
  assumes "parse_uri raw_uri True = Inr (d, u)"
  shows "uri_str u = directory_fmt raw_uri
         \<and> parse_uri (uri_str u) True = Inr (d, u)
         \<and> (directory_fmt raw_uri = raw_uri \<longrightarrow> uri_str u = raw_uri)"
proof -
  have gs: "startswith (directory_fmt raw_uri) ''gs://''"
    and u: "u = \<lparr>path = directory_fmt (os_path_dirname (directory_fmt raw_uri)),
                   basename = os_path_basename (directory_fmt raw_uri)\<rparr>"
    using parse_uri_success[OF assms] by simp_all
  have sp: "os_path_split (directory_fmt raw_uri) = (rstrip ''/'' (rstrip ''/'' raw_uri), [])"
    using split_dir_slash[of "rstrip ''/'' raw_uri"] gs by (simp add: directory_fmt_def)
  have s: "uri_str u = directory_fmt raw_uri"
    using u sp
    by (simp add: uri_str_def os_path_dirname_def os_path_basename_def directory_fmt_def rstrip_idem)
  have "parse_uri (directory_fmt raw_uri) True = parse_uri raw_uri True"
    by (simp add: parse_uri_def directory_fmt_idem)
  with s assms show ?thesis by simp
qed

text \<open>Idempotence at the directory URI \<open>gs://bucket/dir/\<close>.\<close>

theorem parse_uri_directory_idempotent_witness:
  "parse_uri ''gs://bucket/dir/'' True =
     Inr (''gs/bucket/dir/'', \<lparr>path = ''gs://bucket/dir/'', basename = []\<rparr>)
   \<and> uri_str \<lparr>path = ''gs://bucket/dir/'', basename = []\<rparr> = ''gs://bucket/dir/''
   \<and> directory_fmt ''gs://bucket/dir/'' = ''gs://bucket/dir/''"
proof -
  have h: "parse_uri ''gs://bucket/dir/'' True =
     Inr (''gs/bucket/dir/'', \<lparr>path = ''gs://bucket/dir/'', basename = []\<rparr>)"
    by (simp add: parse_uri_eval)
  show ?thesis using h parse_uri_directory_idempotent [OF h]
    by (simp add: directory_fmt_def rstrip_def)
qed

text \<open>
  Claim C7 as stated fails: the directory URI \<open>gs://bucket/dir//\<close> ends with a slash
  and is accepted with \<open>recursive = True\<close>, but the external URI returned is
  \<open>gs://bucket/dir/\<close>, not the input string: \<open>directory_fmt\<close> collapses the trailing
  slashes to one.
\<close>

theorem parse_uri_trailing_slashes_counterexample:
  "endswith ''gs://bucket/dir//'' ''/''
   \<and> parse_uri ''gs://bucket/dir//'' True =
       Inr (''gs/bucket/dir/'', \<lparr>path = ''gs://bucket/dir/'', basename = []\<rparr>)
   \<and> uri_str \<lparr>path = ''gs://bucket/dir/'', basename = []\<rparr> = ''gs://bucket/dir/''
   \<and> uri_str \<lparr>path = ''gs://bucket/dir/'', basename = []\<rparr> \<noteq> ''gs://bucket/dir//''"
  by (simp add: parse_uri_eval endswith_def uri_str_def)




section \<open>Properties of the request assembler\<close>

lemma env_step_error: "env_step v es = Inl e \<Longrightarrow> e = TypeError"
  by (cases v; cases "docker_path v") (auto simp: env_step_def split: sum.splits)

lemma env_step_unset:
  "env_step (FileParam n v None u r) es = Inl TypeError"
  by (simp add: env_step_def)

lemma env_loop_error: "env_loop es vs = Inl e \<Longrightarrow> e = TypeError"
  by (induction vs arbitrary: es) (auto split: sum.splits dest: env_step_error)

lemma env_loop_unset:
  "FileParam n v None u r \<in> set vs \<Longrightarrow> env_loop es vs = Inl TypeError"
proof (induction vs arbitrary: es)
  case Nil
  then show ?case by simp
next
  case (Cons a vs)
  show ?case
  proof (cases "env_step a es")
    case (Inl e)
    then show ?thesis using env_step_error[OF Inl] by simp
  next
    case (Inr es')
    then have "a \<noteq> FileParam n v None u r" using env_step_unset by auto
    then have "FileParam n v None u r \<in> set vs" using Cons.prems by simp
    then show ?thesis using Cons.IH Inr by simp
  qed
qed

text \<open>
  Claim C10. When one of the job's containers holds a file parameter whose
  \<open>docker_path\<close> is \<open>None\<close> (what \<open>make_param\<close> builds from an empty value),
  \<open>create_pipeline_request\<close> produces no request document and raises no \<open>ValueError\<close>:
  the environment loop stops with the \<open>TypeError\<close> of \<open>os.path.join\<close>.
\<close>

theorem create_pipeline_request_unset_file_param:
  assumes "FileParam n v None u r
             \<in> set (envs job) \<union> set (inputs job) \<union> set (recursive_inputs job)
               \<union> set (outputs job) \<union> set (recursive_outputs job)"
  shows "create_pipeline_request resources_config job acts tmo = Inl TypeError"
proof -
  have "FileParam n v None u r \<in> set (concat (values_of job))"
    using assms by (auto simp: values_of_def)
  then show ?thesis
    by (simp add: create_pipeline_request_def env_loop_unset)
qed

text \<open>A job with the declared-but-unset input \<open>F1=\<close>.\<close>

theorem create_pipeline_request_unset_file_param_witness:
  "make_param (InputFileParamUtil DEFAULT_INPUT_LOCAL_PATH) ''F1'' (Some '''') False
     = Inr (FileParam ''F1'' None None None False)
   \<and> create_pipeline_request
       \<lparr>project = ''p'', region = ''us-west1'', machine_type = DEFAULT_MACHINE_TYPE,
        disk_size = DEFAULT_DISK_SIZE, service_account = None, scopes = [DEFAULT_SCOPE]\<rparr>
       \<lparr>envs = [EnvParam ''A'' (Some ''hello'')],
        inputs = [FileParam ''F1'' None None None False],
        recursive_inputs = [], outputs = [], recursive_outputs = []\<rparr>
       [] SEVEN_DAYS
     = Inl TypeError"
proof -
  have "make_param (InputFileParamUtil DEFAULT_INPUT_LOCAL_PATH) ''F1'' (Some '''') False
     = Inr (FileParam ''F1'' None None None False)"
    by (simp add: make_param_def InputFileParamUtil_def validate_param_name_def
        name_matches_def name_start_char_def name_char_def)
  then show ?thesis
    using create_pipeline_request_unset_file_param
      [of "''F1''" None None False
          "\<lparr>envs = [EnvParam ''A'' (Some ''hello'')],
            inputs = [FileParam ''F1'' None None None False],
            recursive_inputs = [], outputs = [], recursive_outputs = []\<rparr>"]
    by simp
qed

lemma env_loop_lookup:
  assumes "\<forall>v\<in>set vs. hasattr_docker_path v \<longrightarrow> docker_path v \<noteq> None"
  shows "\<exists>es'. env_loop es vs = Inr es' \<and>
           (\<forall>nm. es' nm =
              (case filter (\<lambda>v. name v = nm) vs of
                 [] \<Rightarrow> es nm
               | w # ws \<Rightarrow>
                   Some (if hasattr_docker_path (last (w # ws))
                         then Some (os_path_join DATA_DISK_MOUNT (the (docker_path (last (w # ws)))))
                         else value' (last (w # ws)))))"
  using assms
proof (induction vs arbitrary: es)
  case Nil
  then show ?case by simp
next
  case (Cons a vs)
  define b where "b = (if hasattr_docker_path a
                       then Some (os_path_join DATA_DISK_MOUNT (the (docker_path a)))
                       else value' a)"
  have st: "env_step a es = Inr (es(name a \<mapsto> b))"
    using Cons.prems by (cases a) (auto simp: env_step_def b_def)
  obtain es' where es': "env_loop (es(name a \<mapsto> b)) vs = Inr es'"
    and look: "\<And>nm. es' nm =
              (case filter (\<lambda>v. name v = nm) vs of
                 [] \<Rightarrow> (es(name a \<mapsto> b)) nm
               | w # ws \<Rightarrow>
                   Some (if hasattr_docker_path (last (w # ws))
                         then Some (os_path_join DATA_DISK_MOUNT (the (docker_path (last (w # ws)))))
                         else value' (last (w # ws))))"
  proof -
    have "\<forall>v\<in>set vs. hasattr_docker_path v \<longrightarrow> docker_path v \<noteq> None"
      using Cons.prems by simp
    from Cons.IH[OF this, of "es(name a \<mapsto> b)"] that show ?thesis by blast
  qed
  have "env_loop es (a # vs) = Inr es'" using st es' by simp
  moreover have "es' nm =
              (case filter (\<lambda>v. name v = nm) (a # vs) of
                 [] \<Rightarrow> es nm
               | w # ws \<Rightarrow>
                   Some (if hasattr_docker_path (last (w # ws))
                         then Some (os_path_join DATA_DISK_MOUNT (the (docker_path (last (w # ws)))))
                         else value' (last (w # ws))))" for nm
    unfolding look[of nm] by (auto simp: b_def split: list.splits)
  ultimately show ?case by blast
qed


text \<open>
  Claim C2, as the code has it. \<open>create_pipeline_request\<close> does not check the names
  again. When every file parameter has a docker path and the actions convert, it
  returns a request document, and its environment binds each name to the value of the
  last parameter of that name in the order of \<open>values()\<close> (envs, inputs, recursive
  inputs, outputs, recursive outputs): a later binding overwrites an earlier one.
\<close>

theorem create_pipeline_request_last_binding_wins:
  assumes "\<forall>v\<in>set (concat (values_of job)).
             hasattr_docker_path v \<longrightarrow> docker_path v \<noteq> None"
      and "to_dict_all acts = Inr ads"
  shows "\<exists>es. create_pipeline_request resources_config job acts tmo =
                Inr \<lparr>pipeline = \<lparr>actions = ads,
                                 resources = create_resources resources_config,
                                 environment = es, timeout = tmo\<rparr>,
                     labels = [(''minsub'', ''v1'')]\<rparr>
              \<and> (\<forall>nm. es nm =
                   (case filter (\<lambda>v. name v = nm) (concat (values_of job)) of
                      [] \<Rightarrow> None
                    | w # ws \<Rightarrow>
                        Some (if hasattr_docker_path (last (w # ws))
                              then Some (os_path_join DATA_DISK_MOUNT
                                           (the (docker_path (last (w # ws)))))
                              else value' (last (w # ws)))))"
proof -
  from env_loop_lookup[OF assms(1), of Map.empty]
  obtain es where "env_loop Map.empty (concat (values_of job)) = Inr es"
    and "\<forall>nm. es nm =
           (case filter (\<lambda>v. name v = nm) (concat (values_of job)) of
              [] \<Rightarrow> None
            | w # ws \<Rightarrow>
                Some (if hasattr_docker_path (last (w # ws))
                      then Some (os_path_join DATA_DISK_MOUNT
                                   (the (docker_path (last (w # ws)))))
                      else value' (last (w # ws))))"
    by auto
  then show ?thesis using assms(2) by (simp add: create_pipeline_request_def)
qed

text \<open>Two parameters named \<open>A\<close>: the input's mount path is the binding that stays.\<close>

theorem create_pipeline_request_last_binding_wins_witness:
  "\<exists>es. create_pipeline_request
           \<lparr>project = ''p'', region = ''us-west1'', machine_type = DEFAULT_MACHINE_TYPE,
            disk_size = DEFAULT_DISK_SIZE, service_account = None, scopes = [DEFAULT_SCOPE]\<rparr>
           \<lparr>envs = [EnvParam ''A'' (Some ''hello'')],
            inputs = [FileParam ''A'' (Some ''gs://b/x'') (Some ''gs/b/x'')
                        (Some \<lparr>path = ''gs://b/'', basename = ''x''\<rparr>) False],
            recursive_inputs = [], outputs = [], recursive_outputs = []\<rparr>
           [] SEVEN_DAYS
         = Inr \<lparr>pipeline =
                  \<lparr>actions = [],
                   resources = create_resources
                     \<lparr>project = ''p'', region = ''us-west1'',
                      machine_type = DEFAULT_MACHINE_TYPE, disk_size = DEFAULT_DISK_SIZE,
                      service_account = None, scopes = [DEFAULT_SCOPE]\<rparr>,
                   environment = es, timeout = SEVEN_DAYS\<rparr>,
                labels = [(''minsub'', ''v1'')]\<rparr>
        \<and> es ''A'' = Some (Some ''/mnt/data/gs/b/x'')"
proof -
  let ?job = "\<lparr>envs = [EnvParam ''A'' (Some ''hello'')],
            inputs = [FileParam ''A'' (Some ''gs://b/x'') (Some ''gs/b/x'')
                        (Some \<lparr>path = ''gs://b/'', basename = ''x''\<rparr>) False],
            recursive_inputs = [], outputs = [], recursive_outputs = []\<rparr>"
  have h1: "\<forall>v\<in>set (concat (values_of ?job)).
             hasattr_docker_path v \<longrightarrow> docker_path v \<noteq> None"
    by (simp add: values_of_def)
  have h2: "to_dict_all [] = Inr []" by simp
  let ?rc = "\<lparr>project = ''p'', region = ''us-west1'', machine_type = DEFAULT_MACHINE_TYPE,
            disk_size = DEFAULT_DISK_SIZE, service_account = None, scopes = [DEFAULT_SCOPE]\<rparr>"
  from create_pipeline_request_last_binding_wins[OF h1 h2, of ?rc SEVEN_DAYS]
  obtain es where
    req: "create_pipeline_request ?rc ?job [] SEVEN_DAYS =
            Inr \<lparr>pipeline = \<lparr>actions = [], resources = create_resources ?rc,
                             environment = es, timeout = SEVEN_DAYS\<rparr>,
                 labels = [(''minsub'', ''v1'')]\<rparr>"
    and look: "\<And>nm. es nm =
                   (case filter (\<lambda>v. name v = nm) (concat (values_of ?job)) of
                      [] \<Rightarrow> None
                    | w # ws \<Rightarrow>
                        Some (if hasattr_docker_path (last (w # ws))
                              then Some (os_path_join DATA_DISK_MOUNT
                                           (the (docker_path (last (w # ws)))))
                              else value' (last (w # ws))))"
    by blast
  have "es ''A'' = Some (Some ''/mnt/data/gs/b/x'')"
    unfolding look[of "''A''"]
    by (simp add: values_of_def os_path_join_def DATA_DISK_MOUNT_def startswith_def
        endswith_def)
  with req show ?thesis by blast
qed

text \<open>
  Claim C2 as stated fails: on a job configuration in which an environment variable
  and an input share the name \<open>A\<close>, \<open>create_pipeline_request\<close> returns a document; the
  binding of the environment variable is overwritten.
\<close>

theorem create_pipeline_request_duplicate_counterexample:
  "create_pipeline_request
      \<lparr>project = ''p'', region = ''us-west1'', machine_type = DEFAULT_MACHINE_TYPE,
       disk_size = DEFAULT_DISK_SIZE, service_account = None, scopes = [DEFAULT_SCOPE]\<rparr>
      \<lparr>envs = [EnvParam ''A'' (Some ''hello'')],
       inputs = [FileParam ''A'' (Some ''gs://b/x'') (Some ''gs/b/x'')
                   (Some \<lparr>path = ''gs://b/'', basename = ''x''\<rparr>) False],
       recursive_inputs = [], outputs = [], recursive_outputs = []\<rparr>
      [] SEVEN_DAYS
    = Inr \<lparr>pipeline =
             \<lparr>actions = [],
              resources = create_resources
                \<lparr>project = ''p'', region = ''us-west1'',
                 machine_type = DEFAULT_MACHINE_TYPE, disk_size = DEFAULT_DISK_SIZE,
                 service_account = None, scopes = [DEFAULT_SCOPE]\<rparr>,
              environment = [''A'' \<mapsto> Some ''/mnt/data/gs/b/x''], timeout = SEVEN_DAYS\<rparr>,
           labels = [(''minsub'', ''v1'')]\<rparr>"
  by (simp add: create_pipeline_request_def values_of_def env_step_def os_path_join_def
      DATA_DISK_MOUNT_def startswith_def endswith_def)

section \<open>Properties of the action builder\<close>

text \<open>
  Claim C5, as the code has it. The commands of the stage-in and of the stage-out
  action are \<open>-c\<close> and a script whose first three lines are \<open>set -o errexit\<close>,
  \<open>set -o nounset\<close> and \<open>set -o pipefail\<close>; a user action always converts, and its
  commands are the caller's command, unchanged.
\<close>

theorem action_commands_preamble:
  "(to_dict (LocalizeAction job) = Inr d \<longrightarrow>
      (\<exists>script. commands d =
         [''-c'', ''set -o errexit'' @ [CHR 0x0A] @ ''set -o nounset'' @ [CHR 0x0A]
                  @ ''set -o pipefail'' @ [CHR 0x0A] @ script]))
   \<and> (to_dict (DelocalizeAction job) = Inr d \<longrightarrow>
      (\<exists>script. commands d =
         [''-c'', ''set -o errexit'' @ [CHR 0x0A] @ ''set -o nounset'' @ [CHR 0x0A]
                  @ ''set -o pipefail'' @ [CHR 0x0A] @ script]))
   \<and> (\<exists>d'. to_dict (UserAction job aname docker_image command) = Inr d'
             \<and> commands d' = command)"
proof (intro conjI impI)
  assume "to_dict (LocalizeAction job) = Inr d"
  then obtain cc where "localize_copy_commands job = Inr cc"
    and "commands d = [''-c'', GENERIC_BASH_SCRIPT_CMD (join_char CHR 0x0A cc)]"
    by (auto simp: to_dict_def split: sum.splits)
  then have "commands d =
         [''-c'', ''set -o errexit'' @ [CHR 0x0A] @ ''set -o nounset'' @ [CHR 0x0A]
                  @ ''set -o pipefail'' @ [CHR 0x0A]
                  @ ([CHR 0x0A] @ join_char CHR 0x0A cc @ [CHR 0x0A])]"
    by (simp add: GENERIC_BASH_SCRIPT_CMD_def BASH_PREAMBLE_def)
  then show "\<exists>script. commands d =
         [''-c'', ''set -o errexit'' @ [CHR 0x0A] @ ''set -o nounset'' @ [CHR 0x0A]
                  @ ''set -o pipefail'' @ [CHR 0x0A] @ script]"
    by blast
next
  assume "to_dict (DelocalizeAction job) = Inr d"
  then obtain cc where "delocalize_copy_commands job = Inr cc"
    and "commands d = [''-c'', GENERIC_BASH_SCRIPT_CMD (join_char CHR 0x0A cc)]"
    by (auto simp: to_dict_def split: sum.splits)
  then have "commands d =
         [''-c'', ''set -o errexit'' @ [CHR 0x0A] @ ''set -o nounset'' @ [CHR 0x0A]
                  @ ''set -o pipefail'' @ [CHR 0x0A]
                  @ ([CHR 0x0A] @ join_char CHR 0x0A cc @ [CHR 0x0A])]"
    by (simp add: GENERIC_BASH_SCRIPT_CMD_def BASH_PREAMBLE_def)
  then show "\<exists>script. commands d =
         [''-c'', ''set -o errexit'' @ [CHR 0x0A] @ ''set -o nounset'' @ [CHR 0x0A]
                  @ ''set -o pipefail'' @ [CHR 0x0A] @ script]"
    by blast
next
  show "\<exists>d'. to_dict (UserAction job aname docker_image command) = Inr d'
             \<and> commands d' = command"
    by (simp add: to_dict_def)
qed

text \<open>The stage-in action of an empty job: its script is the three lines and two
  line ends.\<close>

theorem action_commands_preamble_witness:
  "to_dict (LocalizeAction
      \<lparr>envs = [], inputs = [], recursive_inputs = [], outputs = [], recursive_outputs = []\<rparr>)
   = Inr \<lparr>a_name = ''localize'', imageUri = CLOUD_SDK_IMAGE,
          commands = [''-c'', GENERIC_BASH_SCRIPT_CMD ''''], a_environment = [], flags = [],
          mounts = [\<lparr>disk = DATA_DISK_NAME, mount_path = DATA_DISK_MOUNT, readOnly = False\<rparr>],
          a_timeout = ONE_DAY, entrypoint = Some ''/bin/bash''\<rparr>
   \<and> (\<exists>script. [''-c'', GENERIC_BASH_SCRIPT_CMD ''''] =
         [''-c'', ''set -o errexit'' @ [CHR 0x0A] @ ''set -o nounset'' @ [CHR 0x0A]
                  @ ''set -o pipefail'' @ [CHR 0x0A] @ script])"
proof -
  let ?job = "\<lparr>envs = [], inputs = [], recursive_inputs = [], outputs = [],
               recursive_outputs = []\<rparr>"
  let ?d = "\<lparr>a_name = ''localize'', imageUri = CLOUD_SDK_IMAGE,
          commands = [''-c'', GENERIC_BASH_SCRIPT_CMD ''''], a_environment = [], flags = [],
          mounts = [\<lparr>disk = DATA_DISK_NAME, mount_path = DATA_DISK_MOUNT, readOnly = False\<rparr>],
          a_timeout = ONE_DAY, entrypoint = Some ''/bin/bash''\<rparr>"
  have h: "to_dict (LocalizeAction ?job) = Inr ?d"
    by (simp add: to_dict_def localize_copy_commands_def)
  from action_commands_preamble[THEN conjunct1, rule_format, OF h]
  have "\<exists>script. [''-c'', GENERIC_BASH_SCRIPT_CMD ''''] =
         [''-c'', ''set -o errexit'' @ [CHR 0x0A] @ ''set -o nounset'' @ [CHR 0x0A]
                  @ ''set -o pipefail'' @ [CHR 0x0A] @ script]"
    by simp
  with h show ?thesis by blast
qed

text \<open>
  Claim C5 as stated fails: the commands of a user action built from the command
  \<open>-c\<close>, \<open>echo hi\<close> contain none of errexit, nounset, pipefail.
\<close>

theorem user_action_no_preamble_counterexample:
  "to_dict (UserAction
      \<lparr>envs = [], inputs = [], recursive_inputs = [], outputs = [], recursive_outputs = []\<rparr>
      ''run'' ''debian:stable-slim'' [''-c'', ''echo hi''])
   = Inr \<lparr>a_name = ''run'', imageUri = ''debian:stable-slim'',
          commands = [''-c'', ''echo hi''], a_environment = [], flags = [],
          mounts = [\<lparr>disk = DATA_DISK_NAME, mount_path = DATA_DISK_MOUNT, readOnly = False\<rparr>],
          a_timeout = ONE_DAY, entrypoint = Some ''/bin/bash''\<rparr>
   \<and> \<not> contains ''errexit'' ''-c'' \<and> \<not> contains ''errexit'' ''echo hi''
   \<and> \<not> contains ''nounset'' ''-c'' \<and> \<not> contains ''nounset'' ''echo hi''
   \<and> \<not> contains ''pipefail'' ''-c'' \<and> \<not> contains ''pipefail'' ''echo hi''"
  by (simp add: to_dict_def startswith_def)


section \<open>The two mount-path namespaces\<close>


lemma rstrip_append_keep:
  assumes "a \<noteq> []" "last a \<notin> set cs"
  shows "rstrip cs (a @ b) = a @ rstrip cs b"
proof -
  have "dropWhile (\<lambda>c. c \<in> set cs) (rev a) = rev a"
    using assms by (cases "rev a") (auto simp: last_rev[symmetric] hd_rev)
  then show ?thesis
    by (simp add: rstrip_def dropWhile_append)
qed

lemma rstrip_prefix: "\<exists>t. s = rstrip cs s @ t"
proof -
  have "rev s = takeWhile (\<lambda>c. c \<in> set cs) (rev s) @ dropWhile (\<lambda>c. c \<in> set cs) (rev s)"
    by simp
  then have "s = rev (dropWhile (\<lambda>c. c \<in> set cs) (rev s)) @ rev (takeWhile (\<lambda>c. c \<in> set cs) (rev s))"
    by (metis rev_append rev_rev_ident)
  then show ?thesis unfolding rstrip_def by blast
qed

lemma directory_fmt_file_prefix: "startswith (directory_fmt (''file/'' @ x) @ y) ''file/''"
proof -
  have "rstrip ''/'' (''file/'' @ x) = ''file'' @ rstrip ''/'' (''/'' @ x)"
    using rstrip_append_keep[of "''file''" "''/''" "''/'' @ x"] by simp
  moreover obtain t where t: "''/'' @ x = rstrip ''/'' (''/'' @ x) @ t"
    using rstrip_prefix by blast
  moreover have "startswith (''file'' @ rstrip ''/'' (''/'' @ x) @ ''/'' @ y) ''file/''"
  proof (cases "rstrip ''/'' (''/'' @ x)")
    case Nil
    then show ?thesis by (simp add: startswith_def)
  next
    case (Cons c cs)
    then have "c = CHR ''/''" using t by simp
    then show ?thesis using Cons by (simp add: startswith_def)
  qed
  ultimately show ?thesis by (simp add: directory_fmt_def)
qed

lemma local_uri_rewriter_prefix:
  "local_uri_rewriter home cwd raw_uri = Inr (n, d) \<Longrightarrow> startswith d ''file/''"
  by (auto simp: local_uri_rewriter_def Let_def directory_fmt_file_prefix[simplified]
      split: prod.splits sum.splits)

text \<open>
  Claim C9. Every docker path returned by the local rewriter begins with \<open>file/\<close>;
  the docker path of the remote rewriter begins with \<open>gs/\<close> for every URI that starts
  with \<open>gs://\<close>, hence for every URI that \<open>parse_uri\<close> accepts; so a local docker path
  never equals a remote one.
\<close>

theorem mount_namespaces_disjoint:
  "(local_uri_rewriter home cwd raw_local = Inr (n, d_local) \<longrightarrow> startswith d_local ''file/'')
   \<and> (startswith raw_remote ''gs://'' \<longrightarrow>
        startswith (snd (gcs_uri_rewriter raw_remote)) ''gs/'')
   \<and> (parse_uri raw_remote r = Inr (d_remote, u) \<longrightarrow> startswith d_remote ''gs/'')
   \<and> (local_uri_rewriter home cwd raw_local = Inr (n, d_local)
        \<and> parse_uri raw_remote r = Inr (d_remote, u) \<longrightarrow> d_local \<noteq> d_remote)"
proof -
  have a: "startswith d_local ''file/''"
    if "local_uri_rewriter home cwd raw_local = Inr (n, d_local)"
    using that by (rule local_uri_rewriter_prefix)
  have b: "startswith (snd (gcs_uri_rewriter raw_remote)) ''gs/''"
    if "startswith raw_remote ''gs://''"
    using that by (simp add: gcs_uri_rewriter_def replace_first_gs startswith_def)
  have c: "startswith d_remote ''gs/''" if "parse_uri raw_remote r = Inr (d_remote, u)"
    using parse_uri_success(3)[OF that] by (simp add: startswith_def)
  have "d_local \<noteq> d_remote"
    if "startswith d_local ''file/''" "startswith d_remote ''gs/''"
  proof
    assume "d_local = d_remote"
    with that show False by (cases d_remote) (auto simp: startswith_def)
  qed
  with a b c show ?thesis by blast
qed

text \<open>A local path from the docstring of the local rewriter against a bucket URI.\<close>

theorem mount_namespaces_disjoint_witness:
  "local_uri_rewriter (Some ''/home/user'') ''/work'' ''./../upper_dir/''
     = Inr (''/upper_dir/'', ''file/_dotdot_/upper_dir/'')
   \<and> parse_uri ''gs://bucket/folder/file.txt'' False
     = Inr (''gs/bucket/folder/file.txt'',
            \<lparr>path = ''gs://bucket/folder/'', basename = ''file.txt''\<rparr>)
   \<and> startswith ''file/_dotdot_/upper_dir/'' ''file/''
   \<and> startswith (snd (gcs_uri_rewriter ''gs://bucket/folder/file.txt'')) ''gs/''
   \<and> startswith ''gs/bucket/folder/file.txt'' ''gs/''
   \<and> ''file/_dotdot_/upper_dir/'' \<noteq> ''gs/bucket/folder/file.txt''"
proof -
  have l: "local_uri_rewriter (Some ''/home/user'') ''/work'' ''./../upper_dir/''
     = Inr (''/upper_dir/'', ''file/_dotdot_/upper_dir/'')"
    by (simp add: local_uri_rewriter_def os_path_split_def rstrip_def lstrip_def
        prefix_replace_def startswith_def endswith_def os_path_join_def directory_fmt_def
        os_path_abspath_def os_path_normpath_def re_sub_prefix_def Let_def)
  have p: "parse_uri ''gs://bucket/folder/file.txt'' False
     = Inr (''gs/bucket/folder/file.txt'',
            \<lparr>path = ''gs://bucket/folder/'', basename = ''file.txt''\<rparr>)"
    by (simp add: parse_uri_eval)
  have g: "startswith ''gs://bucket/folder/file.txt'' ''gs://''"
    by (simp add: startswith_def)
  show ?thesis
    using l p g
      mount_namespaces_disjoint
        [of "Some ''/home/user''" "''/work''" "''./../upper_dir/''" "''/upper_dir/''"
            "''file/_dotdot_/upper_dir/''" "''gs://bucket/folder/file.txt''" False
            "''gs/bucket/folder/file.txt''"
            "\<lparr>path = ''gs://bucket/folder/'', basename = ''file.txt''\<rparr>"]
    by simp
qed




section \<open>Properties of the parameter set builder\<close>

lemma collision_step_pair:
  "collision_step a (K, D) =
     (if name a \<notin> K then (insert (name a) K, D) else (K, D @ [name a]))"
  by (simp add: collision_step_def)

lemma fold_nested_concat:
  "fold (\<lambda>vset st. fold f vset st) xss st = fold f (concat xss) st"
  by (induction xss arbitrary: st) simp_all

lemma collision_fold:
  "fold collision_step vs (K, D) = (K', D') \<Longrightarrow>
     K' = K \<union> name ` set vs \<and>
     (\<forall>n. count_list D' n =
            count_list D n + (count_list (map name vs) n - (if n \<in> K then 0 else 1)))"
proof (induction vs arbitrary: K D)
  case Nil
  then show ?case by simp
next
  case (Cons a vs)
  show ?case
  proof (cases "name a \<in> K")
    case True
    then have "fold collision_step vs (K, D @ [name a]) = (K', D')"
      using Cons.prems by (simp add: collision_step_pair)
    from Cons.IH[OF this] True show ?thesis by auto
  next
    case False
    then have "fold collision_step vs (insert (name a) K, D) = (K', D')"
      using Cons.prems by (simp add: collision_step_pair)
    from Cons.IH[OF this] False show ?thesis by auto
  qed
qed

lemma check_for_collisions_dups:
  "\<exists>dups. snd (fold (\<lambda>vset st. fold collision_step vset st) allinputs ({}, [])) = dups
         \<and> (\<forall>n. count_list dups n = count_list (map name (concat allinputs)) n - 1)"
proof -
  have "fold (\<lambda>vset st. fold collision_step vset st) allinputs ({}, [])
          = fold collision_step (concat allinputs) ({}, [])"
    by (rule fold_nested_concat)
  moreover obtain K' D' where "fold collision_step (concat allinputs) ({}, []) = (K', D')"
    by (cases "fold collision_step (concat allinputs) ({}, [])") 
  ultimately show ?thesis using collision_fold[of "concat allinputs" "{}" "[]" K' D'] by simp
qed

lemma not_distinct_count: "\<not> distinct xs \<Longrightarrow> \<exists>x. 2 \<le> count_list xs x"
proof (induction xs)
  case Nil
  then show ?case by simp
next
  case (Cons a xs)
  show ?case
  proof (cases "a \<in> set xs")
    case True
    then have "0 < count_list xs a" using count_list_0_iff[of xs a] by simp
    then have "2 \<le> count_list (a # xs) a" by simp
    then show ?thesis by blast
  next
    case False
    then obtain x where "2 \<le> count_list xs x" using Cons by auto
    then have "2 \<le> count_list (a # xs) x" by simp
    then show ?thesis by blast
  qed
qed

lemma distinct_count_le1: "distinct xs \<Longrightarrow> count_list xs x \<le> 1"
  by (induction xs) (auto simp: count_list_0_iff)

lemma new_JobParams_ok:
  assumes "distinct (map name (es @ ins @ r_ins @ outs @ r_outs))"
  shows "new_JobParams es ins r_ins outs r_outs =
           Inr \<lparr>envs = es, inputs = ins, recursive_inputs = r_ins,
                outputs = outs, recursive_outputs = r_outs\<rparr>"
proof -
  obtain dups where
    d: "snd (fold (\<lambda>vset st. fold collision_step vset st) [es, ins, r_ins, outs, r_outs] ({}, []))
          = dups"
    and c: "\<And>n. count_list dups n =
                 count_list (map name (concat [es, ins, r_ins, outs, r_outs])) n - 1"
    using check_for_collisions_dups[of "[es, ins, r_ins, outs, r_outs]"] by blast
  have "count_list dups n = 0" for n
    using c[of n] distinct_count_le1[OF assms, of n] by simp
  then have "dups = []" by (metis count_list_0_iff last_in_set)
  then show ?thesis using d by (simp add: new_JobParams_def check_for_collisions_def)
qed

lemma new_JobParams_Inr:
  assumes "new_JobParams es ins r_ins outs r_outs = Inr job"
  shows "distinct (map name (es @ ins @ r_ins @ outs @ r_outs))
         \<and> job = \<lparr>envs = es, inputs = ins, recursive_inputs = r_ins,
                   outputs = outs, recursive_outputs = r_outs\<rparr>"
proof -
  let ?names = "map name (es @ ins @ r_ins @ outs @ r_outs)"
  obtain dups where
    d: "snd (fold (\<lambda>vset st. fold collision_step vset st) [es, ins, r_ins, outs, r_outs] ({}, []))
          = dups"
    and c: "\<And>n. count_list dups n =
                 count_list (map name (concat [es, ins, r_ins, outs, r_outs])) n - 1"
    using check_for_collisions_dups[of "[es, ins, r_ins, outs, r_outs]"] by blast
  have e: "dups = []" and j: "job = \<lparr>envs = es, inputs = ins, recursive_inputs = r_ins,
                   outputs = outs, recursive_outputs = r_outs\<rparr>"
    using assms d by (auto simp: new_JobParams_def check_for_collisions_def split: if_splits)
  have "distinct ?names"
  proof (rule ccontr)
    assume "\<not> distinct ?names"
    then obtain x where "2 \<le> count_list ?names x" using not_distinct_count by blast
    then show False using c[of x] e by simp
  qed
  with j show ?thesis by simp
qed

text \<open>
  Claim C4. When two members of the five containers share a name (the names of all
  members, taken together, are not distinct), constructing \<open>JobParams\<close> fails with
  the duplicate-names error, and the reported list holds exactly the names that occur
  more than once: every such name is listed, once for each occurrence after its first.
\<close>

theorem new_JobParams_reports_all_duplicates:
  assumes "\<not> distinct (map name (es @ ins @ r_ins @ outs @ r_outs))"
  shows "\<exists>dups. new_JobParams es ins r_ins outs r_outs = Inl (DuplicateNames dups)
           \<and> set dups = {n. 2 \<le> count_list (map name (es @ ins @ r_ins @ outs @ r_outs)) n}
           \<and> (\<forall>n. count_list dups n
                    = count_list (map name (es @ ins @ r_ins @ outs @ r_outs)) n - 1)"
proof -
  let ?names = "map name (es @ ins @ r_ins @ outs @ r_outs)"
  obtain dups where
    d: "snd (fold (\<lambda>vset st. fold collision_step vset st) [es, ins, r_ins, outs, r_outs] ({}, []))
          = dups"
    and c: "\<And>n. count_list dups n =
                 count_list (map name (concat [es, ins, r_ins, outs, r_outs])) n - 1"
    using check_for_collisions_dups[of "[es, ins, r_ins, outs, r_outs]"] by blast
  have c': "count_list dups n = count_list ?names n - 1" for n using c[of n] by simp
  have s: "set dups = {n. 2 \<le> count_list ?names n}"
  proof -
    have "n \<in> set dups \<longleftrightarrow> 2 \<le> count_list ?names n" for n
      using c'[of n] count_list_0_iff[of dups n] by arith
    then show ?thesis by blast
  qed
  obtain x where "2 \<le> count_list ?names x" using not_distinct_count[OF assms] by blast
  then have "x \<in> set dups" using s by simp
  then have "dups \<noteq> []" by auto
  then have "new_JobParams es ins r_ins outs r_outs = Inl (DuplicateNames dups)"
    using d by (simp add: new_JobParams_def check_for_collisions_def)
  with s c' show ?thesis by blast
qed

text \<open>Two names, each shared between an environment variable and a file parameter:
  both are reported.\<close>

theorem new_JobParams_reports_all_duplicates_witness:
  "\<not> distinct (map name ([EnvParam ''A'' (Some ''1''), EnvParam ''B'' None]
                          @ [FileParam ''B'' None None None False] @ []
                          @ [FileParam ''A'' None None None False] @ []))
   \<and> new_JobParams [EnvParam ''A'' (Some ''1''), EnvParam ''B'' None]
        [FileParam ''B'' None None None False] []
        [FileParam ''A'' None None None False] []
      = Inl (DuplicateNames [''B'', ''A''])
   \<and> (\<exists>dups. new_JobParams [EnvParam ''A'' (Some ''1''), EnvParam ''B'' None]
        [FileParam ''B'' None None None False] []
        [FileParam ''A'' None None None False] []
      = Inl (DuplicateNames dups) \<and> ''A'' \<in> set dups \<and> ''B'' \<in> set dups)"
proof -
  let ?es = "[EnvParam ''A'' (Some ''1''), EnvParam ''B'' None]"
  let ?ins = "[FileParam ''B'' None None None False]"
  let ?outs = "[FileParam ''A'' None None None False]"
  have h: "\<not> distinct (map name (?es @ ?ins @ [] @ ?outs @ []))" by simp
  have e: "new_JobParams ?es ?ins [] ?outs [] = Inl (DuplicateNames [''B'', ''A''])"
    by (simp add: new_JobParams_def check_for_collisions_def collision_step_def)
  from new_JobParams_reports_all_duplicates[OF h]
  obtain dups where "new_JobParams ?es ?ins [] ?outs [] = Inl (DuplicateNames dups)"
    and "set dups = {n. 2 \<le> count_list (map name (?es @ ?ins @ [] @ ?outs @ [])) n}"
    by blast
  then have "new_JobParams ?es ?ins [] ?outs [] = Inl (DuplicateNames dups)
             \<and> ''A'' \<in> set dups \<and> ''B'' \<in> set dups"
    by simp
  with h e show ?thesis by blast
qed



lemma split_pair_bare:
  "CHR ''='' \<notin> set v \<Longrightarrow> split_pair v CHR ''='' 0 = Inr (None, Some v)"
  by (simp add: split_pair_def)

lemma get_variable_name_None:
  "get_variable_name util None =
     (auto_prefix util @ string_of_nat (auto_index util),
      util\<lparr>auto_index := auto_index util + 1\<rparr>)"
  by (simp add: get_variable_name_def)

lemma get_variable_name_mono:
  "get_variable_name util nm = (n, util') \<Longrightarrow>
     auto_index util \<le> auto_index util' \<and> auto_prefix util' = auto_prefix util
     \<and> param_class util' = param_class util"
  by (auto simp: get_variable_name_def split: if_splits)

lemma file_args_loop_mono:
  "file_args_loop util r sink args = Inr (sink', util') \<Longrightarrow>
     auto_index util \<le> auto_index util' \<and> auto_prefix util' = auto_prefix util
     \<and> param_class util' = param_class util"
proof (induction args arbitrary: util sink)
  case Nil
  then show ?case by simp
next
  case (Cons arg args)
  from Cons.prems obtain nm0 v nm u1 p where
    g: "get_variable_name util nm0 = (nm, u1)"
    and l: "file_args_loop u1 r (set_add p sink) args = Inr (sink', util')"
    by (auto split: sum.splits prod.splits)
  from get_variable_name_mono[OF g] Cons.IH[OF l] show ?case by simp
qed

lemma make_param_input:
  assumes "param_class util = InputFileParam_class" "name_matches nm"
    and "v = [] \<or> \<not> isl (parse_uri v r)"
  shows "\<exists>p. make_param util nm (Some v) r = Inr p \<and> name p = nm
             \<and> value' p = (if v = [] then None else Some v)"
proof (cases "v = []")
  case True
  then show ?thesis using assms(1,2) by (simp add: make_param_def validate_param_name_def)
next
  case False
  then obtain d u where "parse_uri v r = Inr (d, u)"
    using assms(3) by (cases "parse_uri v r") auto
  then show ?thesis
    using False assms(1,2) by (simp add: make_param_def validate_param_name_def)
qed

lemma string_of_nat_digits:
  "string_of_nat 0 = ''0''" "string_of_nat (Suc 0) = ''1''" "string_of_nat 2 = ''2''"
  by (simp_all add: string_of_nat.simps[of 0] string_of_nat.simps[of "Suc 0"]
      string_of_nat.simps[of 2])

lemma auto_names_match:
  "name_matches ''INPUT_0''" "name_matches ''INPUT_1''" "name_matches ''INPUT_2''"
  by (simp_all add: name_matches_def name_start_char_def name_char_def)

text \<open>
  Claim C8. Three input flags without a name part, each with an empty value or a URI
  that \<open>parse_uri\<close> accepts, given to a fresh input builder: the loop returns three
  parameters named \<open>INPUT_0\<close>, \<open>INPUT_1\<close>, \<open>INPUT_2\<close> in the order of the flags, and
  the counter ends at 3. For every run of the loop, from any builder, the counter
  after the run is at least the counter before it, and the prefix is unchanged.
\<close>

theorem auto_naming_three_inputs:
  "(CHR ''='' \<notin> set v0 \<and> CHR ''='' \<notin> set v1 \<and> CHR ''='' \<notin> set v2
     \<and> (v0 = [] \<or> \<not> isl (parse_uri v0 r)) \<and> (v1 = [] \<or> \<not> isl (parse_uri v1 r))
     \<and> (v2 = [] \<or> \<not> isl (parse_uri v2 r)) \<longrightarrow>
     (\<exists>p0 p1 p2 util'.
        file_args_loop (InputFileParamUtil dp) r [] [v0, v1, v2] = Inr ([p0, p1, p2], util')
        \<and> name p0 = ''INPUT_0'' \<and> name p1 = ''INPUT_1'' \<and> name p2 = ''INPUT_2''
        \<and> value' p0 = (if v0 = [] then None else Some v0)
        \<and> value' p1 = (if v1 = [] then None else Some v1)
        \<and> value' p2 = (if v2 = [] then None else Some v2)
        \<and> auto_index util' = 3))
   \<and> (file_args_loop util r sink args = Inr (sink', util'') \<longrightarrow>
        auto_index util \<le> auto_index util'' \<and> auto_prefix util'' = auto_prefix util)"
proof (intro conjI impI)
  assume h: "CHR ''='' \<notin> set v0 \<and> CHR ''='' \<notin> set v1 \<and> CHR ''='' \<notin> set v2
     \<and> (v0 = [] \<or> \<not> isl (parse_uri v0 r)) \<and> (v1 = [] \<or> \<not> isl (parse_uri v1 r))
     \<and> (v2 = [] \<or> \<not> isl (parse_uri v2 r))"
  define U0 where "U0 = InputFileParamUtil dp"
  define U1 where "U1 = U0\<lparr>auto_index := 1\<rparr>"
  define U2 where "U2 = U0\<lparr>auto_index := 2\<rparr>"
  define U3 where "U3 = U0\<lparr>auto_index := 3\<rparr>"
  have cls: "param_class U1 = InputFileParam_class" "param_class U2 = InputFileParam_class"
    "param_class U3 = InputFileParam_class"
    by (simp_all add: U1_def U2_def U3_def U0_def InputFileParamUtil_def)
  have g0: "get_variable_name U0 None = (''INPUT_0'', U1)"
    by (simp add: get_variable_name_None U0_def U1_def InputFileParamUtil_def
        AUTO_PREFIX_INPUT_def string_of_nat_digits)
  have g1: "get_variable_name U1 None = (''INPUT_1'', U2)"
    by (simp add: get_variable_name_None U0_def U1_def U2_def InputFileParamUtil_def
        AUTO_PREFIX_INPUT_def string_of_nat_digits)
  have g2: "get_variable_name U2 None = (''INPUT_2'', U3)"
    by (simp add: get_variable_name_None U0_def U2_def U3_def InputFileParamUtil_def
        AUTO_PREFIX_INPUT_def string_of_nat_digits)
  obtain p0 where p0: "make_param U1 ''INPUT_0'' (Some v0) r = Inr p0" "name p0 = ''INPUT_0''"
    "value' p0 = (if v0 = [] then None else Some v0)"
    using make_param_input[OF cls(1) auto_names_match(1), of v0 r] h by blast
  obtain p1 where p1: "make_param U2 ''INPUT_1'' (Some v1) r = Inr p1" "name p1 = ''INPUT_1''"
    "value' p1 = (if v1 = [] then None else Some v1)"
    using make_param_input[OF cls(2) auto_names_match(2), of v1 r] h by blast
  obtain p2 where p2: "make_param U3 ''INPUT_2'' (Some v2) r = Inr p2" "name p2 = ''INPUT_2''"
    "value' p2 = (if v2 = [] then None else Some v2)"
    using make_param_input[OF cls(3) auto_names_match(3), of v2 r] h by blast
  have ne: "p1 \<noteq> p0" "p2 \<noteq> p0" "p2 \<noteq> p1"
    using p0(2) p1(2) p2(2) by auto
  have "file_args_loop U0 r [] [v0, v1, v2] = Inr ([p0, p1, p2], U3)"
    using h g0 g1 g2 p0(1) p1(1) p2(1) ne
    by (simp add: split_pair_bare set_add_def)
  moreover have "auto_index U3 = 3" by (simp add: U3_def)
  ultimately show "\<exists>p0 p1 p2 util'.
        file_args_loop (InputFileParamUtil dp) r [] [v0, v1, v2] = Inr ([p0, p1, p2], util')
        \<and> name p0 = ''INPUT_0'' \<and> name p1 = ''INPUT_1'' \<and> name p2 = ''INPUT_2''
        \<and> value' p0 = (if v0 = [] then None else Some v0)
        \<and> value' p1 = (if v1 = [] then None else Some v1)
        \<and> value' p2 = (if v2 = [] then None else Some v2)
        \<and> auto_index util' = 3"
    using p0 p1 p2 unfolding U0_def by blast
next
  assume "file_args_loop util r sink args = Inr (sink', util'')"
  from file_args_loop_mono[OF this] show "auto_index util \<le> auto_index util''" by simp
next
  assume "file_args_loop util r sink args = Inr (sink', util'')"
  from file_args_loop_mono[OF this] show "auto_prefix util'' = auto_prefix util" by simp
qed

lemmas job_eval =
  args_to_job_params_def parse_pair_args_def file_args_loop.simps split_pair_def
  get_variable_name_def make_param_def new_param.simps validate_param_name_def
  name_matches_def name_start_char_def name_char_def InputFileParamUtil_def
  OutputFileParamUtil_def AUTO_PREFIX_INPUT_def AUTO_PREFIX_OUTPUT_def set_add_def
  new_JobParams_def check_for_collisions_def collision_step_def string_of_nat.simps
  new_EnvParam_def

text \<open>Three bare flags, two of them the same URI; and the counter carried from the
  inputs over to the recursive inputs of one job.\<close>

theorem auto_naming_three_inputs_witness:
  "(\<exists>p0 p1 p2 util'.
      file_args_loop (InputFileParamUtil DEFAULT_INPUT_LOCAL_PATH) False []
        [''gs://b/x'', ''gs://b/x'', ''''] = Inr ([p0, p1, p2], util')
      \<and> name p0 = ''INPUT_0'' \<and> name p1 = ''INPUT_1'' \<and> name p2 = ''INPUT_2''
      \<and> auto_index util' = 3)
   \<and> args_to_job_params id [] [''gs://b/x'', ''gs://b/y''] [''gs://b/d''] [] [] =
       Inr \<lparr>envs = [],
            inputs = [FileParam ''INPUT_0'' (Some ''gs://b/x'') (Some ''gs/b/x'')
                        (Some \<lparr>path = ''gs://b/'', basename = ''x''\<rparr>) False,
                      FileParam ''INPUT_1'' (Some ''gs://b/y'') (Some ''gs/b/y'')
                        (Some \<lparr>path = ''gs://b/'', basename = ''y''\<rparr>) False],
            recursive_inputs =
                     [FileParam ''INPUT_2'' (Some ''gs://b/d'') (Some ''gs/b/d/'')
                        (Some \<lparr>path = ''gs://b/d/'', basename = []\<rparr>) True],
            outputs = [], recursive_outputs = []\<rparr>"
proof -
  have px: "parse_uri ''gs://b/x'' False
              = Inr (''gs/b/x'', \<lparr>path = ''gs://b/'', basename = ''x''\<rparr>)"
    by (simp add: parse_uri_eval)
  have py: "parse_uri ''gs://b/y'' False
              = Inr (''gs/b/y'', \<lparr>path = ''gs://b/'', basename = ''y''\<rparr>)"
    by (simp add: parse_uri_eval)
  have pd: "parse_uri ''gs://b/d'' True
              = Inr (''gs/b/d/'', \<lparr>path = ''gs://b/d/'', basename = []\<rparr>)"
    by (simp add: parse_uri_eval)
  have a: "\<exists>p0 p1 p2 util'.
      file_args_loop (InputFileParamUtil DEFAULT_INPUT_LOCAL_PATH) False []
        [''gs://b/x'', ''gs://b/x'', ''''] = Inr ([p0, p1, p2], util')
      \<and> name p0 = ''INPUT_0'' \<and> name p1 = ''INPUT_1'' \<and> name p2 = ''INPUT_2''
      \<and> auto_index util' = 3"
  proof -
    have h: "CHR ''='' \<notin> set ''gs://b/x'' \<and> CHR ''='' \<notin> set ''gs://b/x''
       \<and> CHR ''='' \<notin> set ''''
       \<and> (''gs://b/x'' = [] \<or> \<not> isl (parse_uri ''gs://b/x'' False))
       \<and> (''gs://b/x'' = [] \<or> \<not> isl (parse_uri ''gs://b/x'' False))
       \<and> ('''' = [] \<or> \<not> isl (parse_uri '''' False))"
      using px by simp
    from auto_naming_three_inputs[THEN conjunct1, rule_format, OF h]
    show ?thesis by blast
  qed
  have b: "args_to_job_params id [] [''gs://b/x'', ''gs://b/y''] [''gs://b/d''] [] [] =
       Inr \<lparr>envs = [],
            inputs = [FileParam ''INPUT_0'' (Some ''gs://b/x'') (Some ''gs/b/x'')
                        (Some \<lparr>path = ''gs://b/'', basename = ''x''\<rparr>) False,
                      FileParam ''INPUT_1'' (Some ''gs://b/y'') (Some ''gs/b/y'')
                        (Some \<lparr>path = ''gs://b/'', basename = ''y''\<rparr>) False],
            recursive_inputs =
                     [FileParam ''INPUT_2'' (Some ''gs://b/d'') (Some ''gs/b/d/'')
                        (Some \<lparr>path = ''gs://b/d/'', basename = []\<rparr>) True],
            outputs = [], recursive_outputs = []\<rparr>"
    by (simp add: job_eval px py pd)
  from a b show ?thesis by blast
qed




section \<open>The request document and the iteration order of the sets\<close>

lemma args_to_job_params_split:
  assumes "args_to_job_params o1 es ins rins outs routs = Inr j1"
  shows "\<exists>E In RIn Out ROut. \<forall>ord. args_to_job_params ord es ins rins outs routs
                          = new_JobParams (ord E) (ord In) (ord RIn) (ord Out) (ord ROut)"
proof -
  from assms obtain E where E: "parse_pair_args_loop [] es = Inr E"
    by (auto simp: args_to_job_params_def parse_pair_args_def split: sum.splits)
  from assms E obtain In iu where
    In: "file_args_loop (InputFileParamUtil DEFAULT_INPUT_LOCAL_PATH) False [] ins = Inr (In, iu)"
    by (auto simp: args_to_job_params_def parse_pair_args_def split: sum.splits)
  from assms E In obtain RIn iu' where RIn: "file_args_loop iu True [] rins = Inr (RIn, iu')"
    by (auto simp: args_to_job_params_def parse_pair_args_def split: sum.splits)
  from assms E In RIn obtain Out ou where
    Out: "file_args_loop (OutputFileParamUtil DEFAULT_OUTPUT_LOCAL_PATH) False [] outs = Inr (Out, ou)"
    by (auto simp: args_to_job_params_def parse_pair_args_def split: sum.splits)
  from assms E In RIn Out obtain ROut ou' where ROut: "file_args_loop ou True [] routs = Inr (ROut, ou')"
    by (auto simp: args_to_job_params_def parse_pair_args_def split: sum.splits)
  have "\<forall>ord. args_to_job_params ord es ins rins outs routs
              = new_JobParams (ord E) (ord In) (ord RIn) (ord Out) (ord ROut)"
    using E In RIn Out ROut by (simp add: args_to_job_params_def parse_pair_args_def)
  then show ?thesis by blast
qed

lemma filter_name_single:
  "distinct (map name vs) \<Longrightarrow> v \<in> set vs \<Longrightarrow> filter (\<lambda>w. name w = name v) vs = [v]"
proof (induction vs)
  case Nil
  then show ?case by simp
next
  case (Cons a vs)
  show ?case
  proof (cases "a = v")
    case True
    then have "\<forall>w\<in>set vs. name w \<noteq> name v" using Cons.prems by (auto simp: image_iff)
    then have "filter (\<lambda>w. name w = name v) vs = []" by (simp add: filter_empty_conv)
    with True show ?thesis by simp
  next
    case False
    then have v: "v \<in> set vs" using Cons.prems by simp
    then have "name a \<noteq> name v" using Cons.prems by (auto simp: image_iff)
    then show ?thesis using Cons.IH v Cons.prems by simp
  qed
qed

lemma env_loop_Inr_docker:
  assumes "env_loop es vs = Inr e1"
  shows "\<forall>v\<in>set vs. hasattr_docker_path v \<longrightarrow> docker_path v \<noteq> None"
proof (intro ballI impI)
  fix v assume v: "v \<in> set vs" "hasattr_docker_path v"
  show "docker_path v \<noteq> None"
  proof
    assume n: "docker_path v = None"
    from v(2) n obtain nm val u r where "v = FileParam nm val None u r" by (cases v) auto
    then have "env_loop es vs = Inl TypeError" using v(1) env_loop_unset by blast
    with assms show False by simp
  qed
qed

lemma env_loop_perm:
  assumes "mset vs' = mset vs" "distinct (map name vs)" "env_loop es vs = Inr e1"
  shows "env_loop es vs' = Inr e1"
proof -
  let ?b = "\<lambda>ws. Some (if hasattr_docker_path (last ws)
                        then Some (os_path_join DATA_DISK_MOUNT (the (docker_path (last ws))))
                        else value' (last ws))"
  have s: "set vs' = set vs" using assms(1) by (rule mset_eq_setD)
  have "mset (map name vs') = mset (map name vs)" using assms(1) by simp
  then have d': "distinct (map name vs')"
    using assms(2) mset_eq_imp_distinct_iff by blast
  have ok: "\<forall>v\<in>set vs. hasattr_docker_path v \<longrightarrow> docker_path v \<noteq> None"
    using env_loop_Inr_docker[OF assms(3)] .
  then have ok': "\<forall>v\<in>set vs'. hasattr_docker_path v \<longrightarrow> docker_path v \<noteq> None"
    using s by simp
  from env_loop_lookup[OF ok, of es] assms(3)
  have l1: "\<And>nm. e1 nm = (case filter (\<lambda>v. name v = nm) vs of
                             [] \<Rightarrow> es nm | w # ws \<Rightarrow> ?b (w # ws))"
    by auto
  from env_loop_lookup[OF ok', of es]
  obtain e2 where e2: "env_loop es vs' = Inr e2"
    and l2: "\<And>nm. e2 nm = (case filter (\<lambda>v. name v = nm) vs' of
                             [] \<Rightarrow> es nm | w # ws \<Rightarrow> ?b (w # ws))"
    by auto
  have "e2 nm = e1 nm" for nm
  proof (cases "\<exists>v\<in>set vs. name v = nm")
    case True
    then obtain v where v: "v \<in> set vs" "name v = nm" by blast
    have "filter (\<lambda>w. name w = nm) vs = [v]"
      using filter_name_single[OF assms(2) v(1)] v(2) by simp
    moreover have "filter (\<lambda>w. name w = nm) vs' = [v]"
      using filter_name_single[OF d', of v] v s by simp
    ultimately show ?thesis using l1[of nm] l2[of nm] by simp
  next
    case False
    then have "filter (\<lambda>w. name w = nm) vs = []" "filter (\<lambda>w. name w = nm) vs' = []"
      using s by (auto simp: filter_empty_conv)
    then show ?thesis using l1[of nm] l2[of nm] by simp
  qed
  then have "e2 = e1" by (rule ext)
  with e2 show ?thesis by simp
qed

lemma localize_loop_Inr:
  "localize_loop m tool acc vs = Inr c \<longleftrightarrow>
     (\<forall>v\<in>set vs. \<not> isl (join_mount m v))
     \<and> c = acc @ map (\<lambda>v. copy_command tool (fmt_s (value' v)) (projr (join_mount m v))) vs"
  by (induction vs arbitrary: acc) (auto split: sum.splits)

lemma delocalize_loop_Inr:
  "delocalize_loop m tool acc vs = Inr c \<longleftrightarrow>
     (\<forall>v\<in>set vs. \<not> isl (join_mount m v))
     \<and> c = acc @ map (\<lambda>v. copy_command tool (projr (join_mount m v)) (fmt_s (value' v))) vs"
  by (induction vs arbitrary: acc) (auto split: sum.splits)

lemma localize_copy_commands_perm:
  assumes "mset (inputs j2) = mset (inputs j1)"
    and "mset (recursive_inputs j2) = mset (recursive_inputs j1)"
    and "localize_copy_commands j1 = Inr c1"
  shows "\<exists>c2. localize_copy_commands j2 = Inr c2 \<and> mset c2 = mset c1"
proof -
  let ?f = "\<lambda>tool v. copy_command tool (fmt_s (value' v)) (projr (join_mount DATA_DISK_MOUNT v))"
  have s: "set (inputs j2) = set (inputs j1)"
    "set (recursive_inputs j2) = set (recursive_inputs j1)"
    using assms(1,2) by (auto dest: mset_eq_setD)
  from assms(3) have ok: "\<forall>v\<in>set (inputs j1). \<not> isl (join_mount DATA_DISK_MOUNT v)"
    "\<forall>v\<in>set (recursive_inputs j1). \<not> isl (join_mount DATA_DISK_MOUNT v)"
    and c1: "c1 = map (?f ''gsutil -mq cp'') (inputs j1)
                  @ map (?f ''gsutil -mq rsync -r'') (recursive_inputs j1)"
    by (auto simp: localize_copy_commands_def localize_loop_Inr split: sum.splits)
  have "localize_loop DATA_DISK_MOUNT ''gsutil -mq cp'' [] (inputs j2)
          = Inr (map (?f ''gsutil -mq cp'') (inputs j2))"
    using ok(1) s(1) by (simp add: localize_loop_Inr)
  moreover have "localize_loop DATA_DISK_MOUNT ''gsutil -mq rsync -r''
                   (map (?f ''gsutil -mq cp'') (inputs j2)) (recursive_inputs j2)
          = Inr (map (?f ''gsutil -mq cp'') (inputs j2)
                  @ map (?f ''gsutil -mq rsync -r'') (recursive_inputs j2))"
    using ok(2) s(2) by (simp add: localize_loop_Inr)
  ultimately have "localize_copy_commands j2 = Inr (map (?f ''gsutil -mq cp'') (inputs j2)
                  @ map (?f ''gsutil -mq rsync -r'') (recursive_inputs j2))"
    by (simp add: localize_copy_commands_def)
  moreover have "mset (map (?f ''gsutil -mq cp'') (inputs j2)
                  @ map (?f ''gsutil -mq rsync -r'') (recursive_inputs j2)) = mset c1"
    using assms(1,2) c1 by simp
  ultimately show ?thesis by blast
qed

lemma delocalize_copy_commands_perm:
  assumes "mset (outputs j2) = mset (outputs j1)"
    and "mset (recursive_outputs j2) = mset (recursive_outputs j1)"
    and "delocalize_copy_commands j1 = Inr c1"
  shows "\<exists>c2. delocalize_copy_commands j2 = Inr c2 \<and> mset c2 = mset c1"
proof -
  let ?f = "\<lambda>tool v. copy_command tool (projr (join_mount DATA_DISK_MOUNT v)) (fmt_s (value' v))"
  have s: "set (outputs j2) = set (outputs j1)"
    "set (recursive_outputs j2) = set (recursive_outputs j1)"
    using assms(1,2) by (auto dest: mset_eq_setD)
  from assms(3) have ok: "\<forall>v\<in>set (outputs j1). \<not> isl (join_mount DATA_DISK_MOUNT v)"
    "\<forall>v\<in>set (recursive_outputs j1). \<not> isl (join_mount DATA_DISK_MOUNT v)"
    and c1: "c1 = map (?f ''gsutil -mq cp'') (outputs j1)
                  @ map (?f ''gsutil -mq rsync -r'') (recursive_outputs j1)"
    by (auto simp: delocalize_copy_commands_def delocalize_loop_Inr split: sum.splits)
  have "delocalize_loop DATA_DISK_MOUNT ''gsutil -mq cp'' [] (outputs j2)
          = Inr (map (?f ''gsutil -mq cp'') (outputs j2))"
    using ok(1) s(1) by (simp add: delocalize_loop_Inr)
  moreover have "delocalize_loop DATA_DISK_MOUNT ''gsutil -mq rsync -r''
                   (map (?f ''gsutil -mq cp'') (outputs j2)) (recursive_outputs j2)
          = Inr (map (?f ''gsutil -mq cp'') (outputs j2)
                  @ map (?f ''gsutil -mq rsync -r'') (recursive_outputs j2))"
    using ok(2) s(2) by (simp add: delocalize_loop_Inr)
  ultimately have "delocalize_copy_commands j2 = Inr (map (?f ''gsutil -mq cp'') (outputs j2)
                  @ map (?f ''gsutil -mq rsync -r'') (recursive_outputs j2))"
    by (simp add: delocalize_copy_commands_def)
  moreover have "mset (map (?f ''gsutil -mq cp'') (outputs j2)
                  @ map (?f ''gsutil -mq rsync -r'') (recursive_outputs j2)) = mset c1"
    using assms(1,2) c1 by simp
  ultimately show ?thesis by blast
qed


text \<open>
  Claim C6, as the code has it. Take the same flag lists in two runs whose sets are
  iterated in two orders (each a permutation of the elements). If the first run builds
  a job, so does the second, and the two jobs have the same members in each of the
  five containers. With the same actions the second run returns the very document of
  the first; with any actions, the two documents have the same environment map,
  resources, timeout and labels. The copy commands of the stage-in and of the
  stage-out action are the same commands in both runs, each as often, but not in the
  same order: the order follows the iteration order of the sets.
\<close>

theorem request_up_to_set_iteration_order:
  assumes "\<forall>xs. mset (order1 xs) = mset xs" and "\<forall>xs. mset (order2 xs) = mset xs"
    and "args_to_job_params order1 es ins rins outs routs = Inr j1"
  shows "\<exists>j2. args_to_job_params order2 es ins rins outs routs = Inr j2
           \<and> mset (envs j2) = mset (envs j1)
           \<and> mset (inputs j2) = mset (inputs j1)
           \<and> mset (recursive_inputs j2) = mset (recursive_inputs j1)
           \<and> mset (outputs j2) = mset (outputs j1)
           \<and> mset (recursive_outputs j2) = mset (recursive_outputs j1)
           \<and> (\<forall>rc acts tmo d1.
                 create_pipeline_request rc j1 acts tmo = Inr d1 \<longrightarrow>
                 create_pipeline_request rc j2 acts tmo = Inr d1)
           \<and> (\<forall>rc acts1 acts2 tmo d1 d2.
                 create_pipeline_request rc j1 acts1 tmo = Inr d1
                 \<and> create_pipeline_request rc j2 acts2 tmo = Inr d2 \<longrightarrow>
                 environment (pipeline d2) = environment (pipeline d1)
                 \<and> resources (pipeline d2) = resources (pipeline d1)
                 \<and> timeout (pipeline d2) = timeout (pipeline d1)
                 \<and> labels d2 = labels d1)
           \<and> (\<forall>c1. localize_copy_commands j1 = Inr c1 \<longrightarrow>
                 (\<exists>c2. localize_copy_commands j2 = Inr c2 \<and> mset c2 = mset c1))
           \<and> (\<forall>c1. delocalize_copy_commands j1 = Inr c1 \<longrightarrow>
                 (\<exists>c2. delocalize_copy_commands j2 = Inr c2 \<and> mset c2 = mset c1))"
proof -
  obtain E In RIn Out ROut where
    sp: "\<And>ord. args_to_job_params ord es ins rins outs routs
              = new_JobParams (ord E) (ord In) (ord RIn) (ord Out) (ord ROut)"
    using args_to_job_params_split[OF assms(3)] by blast
  have n1: "new_JobParams (order1 E) (order1 In) (order1 RIn) (order1 Out) (order1 ROut) = Inr j1"
    using sp[of order1] assms(3) by simp
  have d1: "distinct (map name (order1 E @ order1 In @ order1 RIn @ order1 Out @ order1 ROut))"
    and j1: "j1 = \<lparr>envs = order1 E, inputs = order1 In, recursive_inputs = order1 RIn,
                   outputs = order1 Out, recursive_outputs = order1 ROut\<rparr>"
    using new_JobParams_Inr[OF n1] by simp_all
  define j2 where "j2 = \<lparr>envs = order2 E, inputs = order2 In, recursive_inputs = order2 RIn,
                         outputs = order2 Out, recursive_outputs = order2 ROut\<rparr>"
  have m: "mset (order2 xs) = mset (order1 xs)" for xs using assms(1,2) by simp
  have mall: "mset (order2 E @ order2 In @ order2 RIn @ order2 Out @ order2 ROut)
              = mset (order1 E @ order1 In @ order1 RIn @ order1 Out @ order1 ROut)"
    by (simp add: m)
  then have "mset (map name (order2 E @ order2 In @ order2 RIn @ order2 Out @ order2 ROut))
              = mset (map name (order1 E @ order1 In @ order1 RIn @ order1 Out @ order1 ROut))"
    by (metis mset_map)
  then have d2: "distinct (map name (order2 E @ order2 In @ order2 RIn @ order2 Out @ order2 ROut))"
    using d1 mset_eq_imp_distinct_iff by blast
  have a2: "args_to_job_params order2 es ins rins outs routs = Inr j2"
    using sp[of order2] new_JobParams_ok[OF d2] by (simp add: j2_def)
  have fields: "mset (envs j2) = mset (envs j1)" "mset (inputs j2) = mset (inputs j1)"
    "mset (recursive_inputs j2) = mset (recursive_inputs j1)"
    "mset (outputs j2) = mset (outputs j1)"
    "mset (recursive_outputs j2) = mset (recursive_outputs j1)"
    by (simp_all add: j1 j2_def m)
  have vals: "mset (concat (values_of j2)) = mset (concat (values_of j1))"
    using mall by (simp add: values_of_def j1 j2_def)
  have dv: "distinct (map name (concat (values_of j1)))"
    using d1 by (simp add: values_of_def j1)
  have env: "env_loop Map.empty (concat (values_of j2)) = Inr e"
    if "env_loop Map.empty (concat (values_of j1)) = Inr e" for e
    using env_loop_perm[OF vals dv that] .
  have same: "create_pipeline_request rc j2 acts tmo = Inr d"
    if "create_pipeline_request rc j1 acts tmo = Inr d" for rc acts tmo d
  proof -
    from that obtain e where e: "env_loop Map.empty (concat (values_of j1)) = Inr e"
      by (auto simp: create_pipeline_request_def split: sum.splits)
    show ?thesis using that e env[OF e] by (simp add: create_pipeline_request_def)
  qed
  have parts: "environment (pipeline d2) = environment (pipeline d1)
                 \<and> resources (pipeline d2) = resources (pipeline d1)
                 \<and> timeout (pipeline d2) = timeout (pipeline d1)
                 \<and> labels d2 = labels d1"
    if "create_pipeline_request rc j1 acts1 tmo = Inr d1"
      and "create_pipeline_request rc j2 acts2 tmo = Inr d2" for rc acts1 acts2 tmo d1 d2
  proof -
    from that(1) obtain e where e: "env_loop Map.empty (concat (values_of j1)) = Inr e"
      by (auto simp: create_pipeline_request_def split: sum.splits)
    show ?thesis using that e env[OF e]
      by (auto simp: create_pipeline_request_def split: sum.splits)
  qed
  have loc: "\<exists>c2. localize_copy_commands j2 = Inr c2 \<and> mset c2 = mset c1"
    if "localize_copy_commands j1 = Inr c1" for c1
    using localize_copy_commands_perm[OF fields(2,3) that] .
  have deloc: "\<exists>c2. delocalize_copy_commands j2 = Inr c2 \<and> mset c2 = mset c1"
    if "delocalize_copy_commands j1 = Inr c1" for c1
    using delocalize_copy_commands_perm[OF fields(4,5) that] .
  show ?thesis
    using a2 fields same parts loc deloc by blast
qed

text \<open>Two inputs, iterated in insertion order in one run and in reverse in the
  other.\<close>

theorem request_up_to_set_iteration_order_witness:
  "(\<forall>xs::param list. mset (id xs) = mset xs) \<and> (\<forall>xs::param list. mset (rev xs) = mset xs)
   \<and> args_to_job_params id [] [''A=gs://b/x'', ''B=gs://b/y''] [] [] [] =
       Inr \<lparr>envs = [],
            inputs = [FileParam ''A'' (Some ''gs://b/x'') (Some ''gs/b/x'')
                        (Some \<lparr>path = ''gs://b/'', basename = ''x''\<rparr>) False,
                      FileParam ''B'' (Some ''gs://b/y'') (Some ''gs/b/y'')
                        (Some \<lparr>path = ''gs://b/'', basename = ''y''\<rparr>) False],
            recursive_inputs = [], outputs = [], recursive_outputs = []\<rparr>
   \<and> (\<exists>j2. args_to_job_params rev [] [''A=gs://b/x'', ''B=gs://b/y''] [] [] [] = Inr j2
        \<and> mset (inputs j2)
            = mset [FileParam ''A'' (Some ''gs://b/x'') (Some ''gs/b/x'')
                        (Some \<lparr>path = ''gs://b/'', basename = ''x''\<rparr>) False,
                    FileParam ''B'' (Some ''gs://b/y'') (Some ''gs/b/y'')
                        (Some \<lparr>path = ''gs://b/'', basename = ''y''\<rparr>) False])"
proof -
  let ?j1 = "\<lparr>envs = [],
            inputs = [FileParam ''A'' (Some ''gs://b/x'') (Some ''gs/b/x'')
                        (Some \<lparr>path = ''gs://b/'', basename = ''x''\<rparr>) False,
                      FileParam ''B'' (Some ''gs://b/y'') (Some ''gs/b/y'')
                        (Some \<lparr>path = ''gs://b/'', basename = ''y''\<rparr>) False],
            recursive_inputs = [], outputs = [], recursive_outputs = []\<rparr>"
  have px: "parse_uri ''gs://b/x'' False
              = Inr (''gs/b/x'', \<lparr>path = ''gs://b/'', basename = ''x''\<rparr>)"
    by (simp add: parse_uri_eval)
  have py: "parse_uri ''gs://b/y'' False
              = Inr (''gs/b/y'', \<lparr>path = ''gs://b/'', basename = ''y''\<rparr>)"
    by (simp add: parse_uri_eval)
  have h1: "\<forall>xs::param list. mset (id xs) = mset xs" by simp
  have h2: "\<forall>xs::param list. mset (rev xs) = mset xs" by simp
  have h3: "args_to_job_params id [] [''A=gs://b/x'', ''B=gs://b/y''] [] [] [] = Inr ?j1"
    by (simp add: job_eval px py)
  from request_up_to_set_iteration_order[OF h1 h2 h3]
  obtain j2 where "args_to_job_params rev [] [''A=gs://b/x'', ''B=gs://b/y''] [] [] [] = Inr j2"
    and "mset (inputs j2) = mset (inputs ?j1)"
    by blast
  then have "\<exists>j2. args_to_job_params rev [] [''A=gs://b/x'', ''B=gs://b/y''] [] [] [] = Inr j2
        \<and> mset (inputs j2)
            = mset [FileParam ''A'' (Some ''gs://b/x'') (Some ''gs/b/x'')
                        (Some \<lparr>path = ''gs://b/'', basename = ''x''\<rparr>) False,
                    FileParam ''B'' (Some ''gs://b/y'') (Some ''gs/b/y'')
                        (Some \<lparr>path = ''gs://b/'', basename = ''y''\<rparr>) False]"
    by auto
  with h1 h2 h3 show ?thesis by blast
qed

text \<open>
  Claim C6 as stated fails: the same two input flags, with the set of inputs
  iterated in two different orders, give stage-in actions whose copy commands are in
  different orders, hence different commands and different request documents.
\<close>

theorem copy_command_order_counterexample:
  "args_to_job_params id [] [''A=gs://b/x'', ''B=gs://b/y''] [] [] [] =
     Inr \<lparr>envs = [],
          inputs = [FileParam ''A'' (Some ''gs://b/x'') (Some ''gs/b/x'')
                      (Some \<lparr>path = ''gs://b/'', basename = ''x''\<rparr>) False,
                    FileParam ''B'' (Some ''gs://b/y'') (Some ''gs/b/y'')
                      (Some \<lparr>path = ''gs://b/'', basename = ''y''\<rparr>) False],
          recursive_inputs = [], outputs = [], recursive_outputs = []\<rparr>
   \<and> args_to_job_params rev [] [''A=gs://b/x'', ''B=gs://b/y''] [] [] [] =
     Inr \<lparr>envs = [],
          inputs = [FileParam ''B'' (Some ''gs://b/y'') (Some ''gs/b/y'')
                      (Some \<lparr>path = ''gs://b/'', basename = ''y''\<rparr>) False,
                    FileParam ''A'' (Some ''gs://b/x'') (Some ''gs/b/x'')
                      (Some \<lparr>path = ''gs://b/'', basename = ''x''\<rparr>) False],
          recursive_inputs = [], outputs = [], recursive_outputs = []\<rparr>
   \<and> localize_copy_commands
        \<lparr>envs = [],
         inputs = [FileParam ''A'' (Some ''gs://b/x'') (Some ''gs/b/x'')
                     (Some \<lparr>path = ''gs://b/'', basename = ''x''\<rparr>) False,
                   FileParam ''B'' (Some ''gs://b/y'') (Some ''gs/b/y'')
                     (Some \<lparr>path = ''gs://b/'', basename = ''y''\<rparr>) False],
         recursive_inputs = [], outputs = [], recursive_outputs = []\<rparr>
      = Inr [copy_command ''gsutil -mq cp'' ''gs://b/x'' ''/mnt/data/gs/b/x'',
             copy_command ''gsutil -mq cp'' ''gs://b/y'' ''/mnt/data/gs/b/y'']
   \<and> localize_copy_commands
        \<lparr>envs = [],
         inputs = [FileParam ''B'' (Some ''gs://b/y'') (Some ''gs/b/y'')
                     (Some \<lparr>path = ''gs://b/'', basename = ''y''\<rparr>) False,
                   FileParam ''A'' (Some ''gs://b/x'') (Some ''gs/b/x'')
                     (Some \<lparr>path = ''gs://b/'', basename = ''x''\<rparr>) False],
         recursive_inputs = [], outputs = [], recursive_outputs = []\<rparr>
      = Inr [copy_command ''gsutil -mq cp'' ''gs://b/y'' ''/mnt/data/gs/b/y'',
             copy_command ''gsutil -mq cp'' ''gs://b/x'' ''/mnt/data/gs/b/x'']
   \<and> make_commands (LocalizeAction
        \<lparr>envs = [],
         inputs = [FileParam ''A'' (Some ''gs://b/x'') (Some ''gs/b/x'')
                     (Some \<lparr>path = ''gs://b/'', basename = ''x''\<rparr>) False,
                   FileParam ''B'' (Some ''gs://b/y'') (Some ''gs/b/y'')
                     (Some \<lparr>path = ''gs://b/'', basename = ''y''\<rparr>) False],
         recursive_inputs = [], outputs = [], recursive_outputs = []\<rparr>)
      \<noteq> make_commands (LocalizeAction
        \<lparr>envs = [],
         inputs = [FileParam ''B'' (Some ''gs://b/y'') (Some ''gs/b/y'')
                     (Some \<lparr>path = ''gs://b/'', basename = ''y''\<rparr>) False,
                   FileParam ''A'' (Some ''gs://b/x'') (Some ''gs/b/x'')
                     (Some \<lparr>path = ''gs://b/'', basename = ''x''\<rparr>) False],
         recursive_inputs = [], outputs = [], recursive_outputs = []\<rparr>)
   \<and> create_pipeline_request
        \<lparr>project = ''p'', region = ''us-west1'', machine_type = DEFAULT_MACHINE_TYPE,
         disk_size = DEFAULT_DISK_SIZE, service_account = None, scopes = [DEFAULT_SCOPE]\<rparr>
        \<lparr>envs = [],
         inputs = [FileParam ''A'' (Some ''gs://b/x'') (Some ''gs/b/x'')
                     (Some \<lparr>path = ''gs://b/'', basename = ''x''\<rparr>) False,
                   FileParam ''B'' (Some ''gs://b/y'') (Some ''gs/b/y'')
                     (Some \<lparr>path = ''gs://b/'', basename = ''y''\<rparr>) False],
         recursive_inputs = [], outputs = [], recursive_outputs = []\<rparr>
        [LocalizeAction
        \<lparr>envs = [],
         inputs = [FileParam ''A'' (Some ''gs://b/x'') (Some ''gs/b/x'')
                     (Some \<lparr>path = ''gs://b/'', basename = ''x''\<rparr>) False,
                   FileParam ''B'' (Some ''gs://b/y'') (Some ''gs/b/y'')
                     (Some \<lparr>path = ''gs://b/'', basename = ''y''\<rparr>) False],
         recursive_inputs = [], outputs = [], recursive_outputs = []\<rparr>]
        SEVEN_DAYS
      \<noteq> create_pipeline_request
        \<lparr>project = ''p'', region = ''us-west1'', machine_type = DEFAULT_MACHINE_TYPE,
         disk_size = DEFAULT_DISK_SIZE, service_account = None, scopes = [DEFAULT_SCOPE]\<rparr>
        \<lparr>envs = [],
         inputs = [FileParam ''B'' (Some ''gs://b/y'') (Some ''gs/b/y'')
                     (Some \<lparr>path = ''gs://b/'', basename = ''y''\<rparr>) False,
                   FileParam ''A'' (Some ''gs://b/x'') (Some ''gs/b/x'')
                     (Some \<lparr>path = ''gs://b/'', basename = ''x''\<rparr>) False],
         recursive_inputs = [], outputs = [], recursive_outputs = []\<rparr>
        [LocalizeAction
        \<lparr>envs = [],
         inputs = [FileParam ''B'' (Some ''gs://b/y'') (Some ''gs/b/y'')
                     (Some \<lparr>path = ''gs://b/'', basename = ''y''\<rparr>) False,
                   FileParam ''A'' (Some ''gs://b/x'') (Some ''gs/b/x'')
                     (Some \<lparr>path = ''gs://b/'', basename = ''x''\<rparr>) False],
         recursive_inputs = [], outputs = [], recursive_outputs = []\<rparr>]
        SEVEN_DAYS"
proof -
  have px: "parse_uri ''gs://b/x'' False
              = Inr (''gs/b/x'', \<lparr>path = ''gs://b/'', basename = ''x''\<rparr>)"
    by (simp add: parse_uri_eval)
  have py: "parse_uri ''gs://b/y'' False
              = Inr (''gs/b/y'', \<lparr>path = ''gs://b/'', basename = ''y''\<rparr>)"
    by (simp add: parse_uri_eval)
  show ?thesis
    by (simp add: job_eval px py localize_copy_commands_def os_path_join_def
        DATA_DISK_MOUNT_def startswith_def endswith_def copy_command_def
        GENERIC_BASH_SCRIPT_CMD_def fmt_s_def create_pipeline_request_def values_of_def
        env_step_def to_dict_def)
qed


end
